theory Spec2Isabelle
  imports Main "HOL-Library.AList" "HOL-Library.Multiset"
begin

section \<open>Data model\<close>

text \<open>
  JavaScript numbers are kept abstract: the nutrition fields have a type \<open>'n\<close> of which
  only \<open>0\<close> and \<open>+\<close> are used, so nothing below relies on addition being associative or
  commutative (floating-point addition is neither). The interfaces \<open>DailyNutrition\<close>,
  \<open>TrackedItem\<close> and \<open>FastAccessItem\<close> of the source are structurally typed and share
  fields; the records share them by extension (\<open>FoodEntry\<close> holds the fields common to
  \<open>TrackedItem\<close> and \<open>FastAccessItem\<close>), so that \<open>calories\<close>, \<open>name\<close> etc. read all of
  them. The field \<open>id\<close> is called \<open>item_id\<close> and \<open>type\<close> is called \<open>item_type\<close>.
\<close>

record 'n DailyNutrition =
  calories :: 'n
  protein :: 'n
  carbs :: 'n
  fat :: 'n
  fiber :: 'n
  sugar :: 'n
  sodium :: 'n

record 'n FoodEntry = "'n DailyNutrition" +
  item_id :: string
  name :: string
  restaurant :: string
  serving_size :: string

record 'n TrackedItem = "'n FoodEntry" +
  timestamp :: int

text \<open>
  A calendar day \<open>(year, month, day)\<close>, as \<open>getTodayString\<close> reads it from the local clock
  (\<open>getFullYear()\<close>, \<open>getMonth() + 1\<close>, \<open>getDate()\<close>) and prints it as \<open>YYYY-MM-DD\<close>. The
  source holds days as these strings; two days that the clock can give print as the same
  string only if they are the same day, so a day stands for its string.
\<close>

type_synonym date = "nat \<times> nat \<times> nat"

record 'n DailyLog =
  date :: date
  items :: "'n TrackedItem list"
  totals :: "'n DailyNutrition"

datatype item_kind = custom | restaurant_item

record 'n FastAccessItem = "'n FoodEntry" +
  item_type :: item_kind
  lastUsed :: int
  useCount :: int

text \<open>
  The catalog's \<open>MenuItem\<close>, as far as \<open>extractNutritionFromMenuItem\<close> reads it. The
  calories are a string in the declared type and a number in some data, and the code
  accepts both; \<open>nutrition_facts\<close> maps a nutrient's name to its \<open>amount\<close>.
\<close>

datatype 'n calories_field = CaloriesString string | CaloriesNumber 'n

record 'n MenuItem =
  menu_name :: string
  menu_calories :: "'n calories_field"
  nutrition_facts :: "string \<Rightarrow> 'n option"
  menu_serving_size :: string

subsection \<open>The key-value store\<close>

text \<open>
  \<open>AsyncStorage\<close> maps string keys to strings. The keys \<open>nutrition_log_<date>\<close>,
  \<open>fast_access_items\<close> and \<open>app_background_timestamp\<close> are constructors, every other key is
  an \<open>OtherKey\<close>. A stored string is the JSON of a daily log, the JSON of a quick-access
  list, or any other text; \<open>JSON.parse\<close> after \<open>JSON.stringify\<close> is taken to return the
  value written. The store is an association list, so that \<open>getAllKeys\<close> can enumerate it.
\<close>

datatype key = NutritionLog date | FastAccessItems | BackgroundTimestamp | OtherKey string

datatype 'n stored = LogJson "'n DailyLog" | FastJson "'n FastAccessItem list" | Text string

type_synonym 'n storage = "(key \<times> 'n stored) list"

datatype storage_op = GetItem key | SetItem key | RemoveItem key | GetAllKeys

datatype error = StorageError storage_op

text \<open>\<open>if (stored)\<close>: the empty string is falsy.\<close>

fun truthy :: "'n stored \<Rightarrow> bool" where
  "truthy (Text s) = (s \<noteq> [])"
| "truthy _ = True"

text \<open>
  \<open>JSON.parse\<close> where a daily log, or a quick-access list, is expected: \<open>None\<close> is a parse
  error, which every caller catches.
\<close>

fun parseLog :: "'n stored \<Rightarrow> 'n DailyLog option" where
  "parseLog (LogJson l) = Some l"
| "parseLog _ = None"

fun parseFast :: "'n stored \<Rightarrow> 'n FastAccessItem list option" where
  "parseFast (FastJson xs) = Some xs"
| "parseFast _ = None"

subsection \<open>Environment and state\<close>

text \<open>
  What one call reads from outside: the local calendar day, the id that
  \<open>generateItemId\<close> makes, the two readings of \<open>Date.now()\<close> (for an item's \<open>timestamp\<close>
  and for a quick-access entry's \<open>lastUsed\<close>), which storage calls throw, and \<open>parseInt\<close>
  (\<open>None\<close> is \<open>NaN\<close>).
\<close>

record 'n env =
  today :: date
  newItemId :: string
  now_timestamp :: int
  now_lastUsed :: int
  fails :: "storage_op \<Rightarrow> bool"
  parseInt :: "string \<Rightarrow> 'n option"

text \<open>
  A date-change callback is a function object. \<open>ident\<close> stands for its identity, which is
  what \<open>indexOf\<close> compares; \<open>run\<close> is what a call does to the world \<open>'w\<close> outside the two
  services, returning or throwing; \<open>unsubscribes\<close> lists the callbacks whose unsubscribe
  function (the one \<open>onDateChange\<close> returned for them) the call invokes before it returns
  or throws. A callback that registers a callback, or calls back into a service, while it
  runs is outside this model. The state holds the fields of \<open>NutritionTrackerService\<close> and
  of \<open>FastAccessService\<close>, the store, the calls made to the store so far, in order, and
  that world.
\<close>

datatype 'w outcome = Returned 'w | Threw 'w

record 'w callback =
  ident :: nat
  run :: "'w \<Rightarrow> 'w outcome"
  unsubscribes :: "'w \<Rightarrow> nat list"

record ('n, 'w) app =
  currentDate :: date
  dailyLog :: "'n DailyLog option"
  dateChangeCallbacks :: "'w callback list"
  fastAccessItems :: "'n FastAccessItem list"
  storage :: "'n storage"
  storageCalls :: "storage_op list"
  world :: 'w

text \<open>
  The four calls of \<open>AsyncStorage\<close> that the services make. Each is recorded; a call that
  throws changes nothing else.
\<close>

definition AsyncStorage_getItem :: "'n env \<Rightarrow> key \<Rightarrow> ('n, 'w) app \<Rightarrow> (error + 'n stored option) \<times> ('n, 'w) app" where
  "AsyncStorage_getItem e k s =
     (if fails e (GetItem k) then Inl (StorageError (GetItem k)) else Inr (map_of (storage s) k),
      s\<lparr>storageCalls := storageCalls s @ [GetItem k]\<rparr>)"

definition AsyncStorage_setItem :: "'n env \<Rightarrow> key \<Rightarrow> 'n stored \<Rightarrow> ('n, 'w) app \<Rightarrow> (error + unit) \<times> ('n, 'w) app" where
  "AsyncStorage_setItem e k v s =
     (if fails e (SetItem k)
      then (Inl (StorageError (SetItem k)), s\<lparr>storageCalls := storageCalls s @ [SetItem k]\<rparr>)
      else (Inr (), s\<lparr>storage := AList.update k v (storage s),
                      storageCalls := storageCalls s @ [SetItem k]\<rparr>))"

definition AsyncStorage_removeItem :: "'n env \<Rightarrow> key \<Rightarrow> ('n, 'w) app \<Rightarrow> (error + unit) \<times> ('n, 'w) app" where
  "AsyncStorage_removeItem e k s =
     (if fails e (RemoveItem k)
      then (Inl (StorageError (RemoveItem k)), s\<lparr>storageCalls := storageCalls s @ [RemoveItem k]\<rparr>)
      else (Inr (), s\<lparr>storage := AList.delete k (storage s),
                      storageCalls := storageCalls s @ [RemoveItem k]\<rparr>))"

definition AsyncStorage_getAllKeys :: "'n env \<Rightarrow> ('n, 'w) app \<Rightarrow> (error + key list) \<times> ('n, 'w) app" where
  "AsyncStorage_getAllKeys e s =
     (if fails e GetAllKeys then Inl (StorageError GetAllKeys) else Inr (map fst (storage s)),
      s\<lparr>storageCalls := storageCalls s @ [GetAllKeys]\<rparr>)"

section \<open>The daily log store\<close>

definition getTodayString :: "'n env \<Rightarrow> date" where
  "getTodayString e = today e"

definition generateItemId :: "'n env \<Rightarrow> string" where
  "generateItemId e = newItemId e"

text \<open>\<open>nutrient ? nutrient.amount || 0 : 0\<close>\<close>

definition getNutrientAmount :: "'n::zero MenuItem \<Rightarrow> string \<Rightarrow> 'n" where
  "getNutrientAmount menuItem k = (case nutrition_facts menuItem k of None \<Rightarrow> 0 | Some a \<Rightarrow> a)"

definition extractNutritionFromMenuItem :: "'n::zero env \<Rightarrow> 'n MenuItem \<Rightarrow> string \<Rightarrow> 'n TrackedItem" where
  "extractNutritionFromMenuItem e menuItem rest =
     \<lparr>calories = (case menu_calories menuItem of
                    CaloriesString str \<Rightarrow> (case parseInt e str of None \<Rightarrow> 0 | Some c \<Rightarrow> c)
                  | CaloriesNumber c \<Rightarrow> c),
      protein = getNutrientAmount menuItem ''Protein'',
      carbs = getNutrientAmount menuItem ''Total Carbohydrate'',
      fat = getNutrientAmount menuItem ''Total Fat'',
      fiber = getNutrientAmount menuItem ''Dietary Fiber'',
      sugar = getNutrientAmount menuItem ''Total Sugars'',
      sodium = getNutrientAmount menuItem ''Sodium'',
      item_id = generateItemId e,
      name = menu_name menuItem,
      restaurant = rest,
      serving_size = menu_serving_size menuItem,
      timestamp = now_timestamp e\<rparr>"

definition zeroTotals :: "'n::zero DailyNutrition" where
  "zeroTotals = \<lparr>calories = 0, protein = 0, carbs = 0, fat = 0, fiber = 0, sugar = 0, sodium = 0\<rparr>"

text \<open>\<open>items.reduce\<close>: a fold from the left, starting from the zero totals.\<close>

definition calculateTotals :: "'n::{zero,plus} TrackedItem list \<Rightarrow> 'n DailyNutrition" where
  "calculateTotals its =
     foldl (\<lambda>tot item.
        \<lparr>calories = calories tot + calories item,
         protein = protein tot + protein item,
         carbs = carbs tot + carbs item,
         fat = fat tot + fat item,
         fiber = fiber tot + fiber item,
         sugar = sugar tot + sugar item,
         sodium = sodium tot + sodium item\<rparr>) zeroTotals its"

definition emptyLog :: "date \<Rightarrow> 'n::zero DailyLog" where
  "emptyLog d = \<lparr>date = d, items = [], totals = zeroTotals\<rparr>"

text \<open>
  The \<open>try\<close> block of \<open>loadTodaysLog\<close>: the stored log, or \<open>None\<close> when nothing is stored,
  the read throws or the text does not parse (the \<open>catch\<close> logs and goes on).
\<close>

definition readStoredLog :: "'n env \<Rightarrow> date \<Rightarrow> ('n, 'w) app \<Rightarrow> 'n DailyLog option \<times> ('n, 'w) app" where
  "readStoredLog e d s =
     (case AsyncStorage_getItem e (NutritionLog d) s of
        (Inl err, s1) \<Rightarrow> (None, s1)
      | (Inr None, s1) \<Rightarrow> (None, s1)
      | (Inr (Some v), s1) \<Rightarrow> (if truthy v then parseLog v else None, s1))"

text \<open>
  \<open>loadTodaysLog\<close> returns the object that it leaves in \<open>this.dailyLog\<close>; its callers then
  change that object in place.
\<close>

definition loadTodaysLog :: "'n::zero env \<Rightarrow> ('n, 'w) app \<Rightarrow> 'n DailyLog \<times> ('n, 'w) app" where
  "loadTodaysLog e s =
     (let d = getTodayString e;
          s1 = (if currentDate s \<noteq> d then s\<lparr>currentDate := d, dailyLog := None\<rparr> else s)
      in case (case dailyLog s1 of None \<Rightarrow> None
               | Some l \<Rightarrow> if date l = d then Some l else None) of
           Some l \<Rightarrow> (l, s1)
         | None \<Rightarrow>
            (case readStoredLog e d s1 of
               (Some l, s2) \<Rightarrow> (l, s2\<lparr>dailyLog := Some l\<rparr>)
             | (None, s2) \<Rightarrow> (emptyLog d, s2\<lparr>dailyLog := Some (emptyLog d)\<rparr>)))"

subsection \<open>The quick-access list\<close>

text \<open>
  \<open>Array.prototype.sort\<close> is stable; \<open>le a b\<close> says that the comparator's result on
  \<open>(a, b)\<close> is not positive. The insertion sort below is stable as well.
\<close>

fun insort_by :: "('a \<Rightarrow> 'a \<Rightarrow> bool) \<Rightarrow> 'a \<Rightarrow> 'a list \<Rightarrow> 'a list" where
  "insort_by le x [] = [x]"
| "insort_by le x (y # ys) = (if le x y then x # y # ys else y # insort_by le x ys)"

definition sort_by :: "('a \<Rightarrow> 'a \<Rightarrow> bool) \<Rightarrow> 'a list \<Rightarrow> 'a list" where
  "sort_by le xs = foldr (insort_by le) xs []"

text \<open>
  The comparator of both sorts of the quick-access list:
  \<open>b.lastUsed !== a.lastUsed ? b.lastUsed - a.lastUsed : b.useCount - a.useCount\<close>.
\<close>

definition fastAccessOrder :: "'n FastAccessItem \<Rightarrow> 'n FastAccessItem \<Rightarrow> bool" where
  "fastAccessOrder a b =
     (if lastUsed b \<noteq> lastUsed a then lastUsed b - lastUsed a \<le> 0
      else useCount b - useCount a \<le> 0)"

definition maxItems :: nat where
  "maxItems = 10"

definition loadFastAccessItems :: "'n env \<Rightarrow> ('n, 'w) app \<Rightarrow> 'n FastAccessItem list \<times> ('n, 'w) app" where
  "loadFastAccessItems e s =
     (case AsyncStorage_getItem e FastAccessItems s of
        (Inl err, s1) \<Rightarrow> ([], s1)
      | (Inr None, s1) \<Rightarrow> (fastAccessItems s1, s1)
      | (Inr (Some v), s1) \<Rightarrow>
          if truthy v then
            (case parseFast v of
               None \<Rightarrow> ([], s1)
             | Some xs \<Rightarrow> (sort_by fastAccessOrder xs, s1\<lparr>fastAccessItems := sort_by fastAccessOrder xs\<rparr>))
          else (fastAccessItems s1, s1))"

text \<open>\<open>findIndex\<close>: the first index where the predicate holds.\<close>

fun findIndex :: "('a \<Rightarrow> bool) \<Rightarrow> 'a list \<Rightarrow> nat option" where
  "findIndex P [] = None"
| "findIndex P (x # xs) = (if P x then Some 0 else map_option Suc (findIndex P xs))"

text \<open>
  The branch of \<open>addOrUpdateFastAccessItem\<close> that changes the list: an entry with the
  item's name and restaurant is updated where it is, otherwise a new entry goes to the
  front.
\<close>

definition upsertFastAccessItem :: "int \<Rightarrow> 'n TrackedItem \<Rightarrow> 'n FastAccessItem list \<Rightarrow> 'n FastAccessItem list" where
  "upsertFastAccessItem t trackedItem xs =
     (case findIndex (\<lambda>item. name item = name trackedItem \<and> restaurant item = restaurant trackedItem) xs of
        Some i \<Rightarrow>
          xs[i := (xs ! i)\<lparr>lastUsed := t,
                           useCount := useCount (xs ! i) + 1,
                           calories := calories trackedItem,
                           protein := protein trackedItem,
                           carbs := carbs trackedItem,
                           fat := fat trackedItem,
                           fiber := fiber trackedItem,
                           sugar := sugar trackedItem,
                           sodium := sodium trackedItem,
                           serving_size := serving_size trackedItem\<rparr>]
      | None \<Rightarrow>
          \<lparr>calories = calories trackedItem,
           protein = protein trackedItem,
           carbs = carbs trackedItem,
           fat = fat trackedItem,
           fiber = fiber trackedItem,
           sugar = sugar trackedItem,
           sodium = sodium trackedItem,
           item_id = item_id trackedItem,
           name = name trackedItem,
           restaurant = restaurant trackedItem,
           serving_size = serving_size trackedItem,
           item_type = (if restaurant trackedItem = ''Custom Meal'' then custom else restaurant_item),
           lastUsed = t,
           useCount = 1\<rparr> # xs)"

text \<open>The list that \<open>addOrUpdateFastAccessItem\<close> leaves in memory: cut to \<open>maxItems\<close>, then sorted.\<close>

definition recordUse :: "int \<Rightarrow> 'n TrackedItem \<Rightarrow> 'n FastAccessItem list \<Rightarrow> 'n FastAccessItem list" where
  "recordUse t trackedItem xs =
     (let ys = upsertFastAccessItem t trackedItem xs;
          zs = (if length ys > maxItems then take maxItems ys else ys)
      in sort_by fastAccessOrder zs)"

definition addOrUpdateFastAccessItem :: "'n env \<Rightarrow> 'n TrackedItem \<Rightarrow> ('n, 'w) app \<Rightarrow> (error + unit) \<times> ('n, 'w) app" where
  "addOrUpdateFastAccessItem e trackedItem s =
     (let s1 = (if length (fastAccessItems s) = 0 then snd (loadFastAccessItems e s) else s);
          s2 = s1\<lparr>fastAccessItems := recordUse (now_lastUsed e) trackedItem (fastAccessItems s1)\<rparr>
      in AsyncStorage_setItem e FastAccessItems (FastJson (fastAccessItems s2)) s2)"

definition removeFastAccessItem :: "'n env \<Rightarrow> string \<Rightarrow> ('n, 'w) app \<Rightarrow> (error + unit) \<times> ('n, 'w) app" where
  "removeFastAccessItem e itemId s =
     (let s1 = s\<lparr>fastAccessItems := filter (\<lambda>item. item_id item \<noteq> itemId) (fastAccessItems s)\<rparr>
      in AsyncStorage_setItem e FastAccessItems (FastJson (fastAccessItems s1)) s1)"

subsection \<open>Mutations of today's log\<close>

text \<open>
  \<open>addMenuItem\<close> and \<open>addCustomMeal\<close> have the same body from \<open>todaysLog.items.push\<close> on.
  \<open>todaysLog\<close> is the object in \<open>this.dailyLog\<close>, so the push and the assignment of the
  totals change the cache before the write, and a write that throws leaves them there.
\<close>

definition pushAndSave :: "'n::{zero,plus} env \<Rightarrow> 'n TrackedItem \<Rightarrow> 'n DailyLog \<times> ('n, 'w) app \<Rightarrow> (error + unit) \<times> ('n, 'w) app" where
  "pushAndSave e trackedItem ls =
     (let todaysLog = fst ls;
          s1 = snd ls;
          todaysLog1 = todaysLog\<lparr>items := items todaysLog @ [trackedItem]\<rparr>;
          todaysLog2 = todaysLog1\<lparr>totals := calculateTotals (items todaysLog1)\<rparr>;
          s2 = s1\<lparr>dailyLog := Some todaysLog2\<rparr>
      in case AsyncStorage_setItem e (NutritionLog (currentDate s2)) (LogJson todaysLog2) s2 of
           (Inl err, s3) \<Rightarrow> (Inl err, s3)
         | (Inr u, s3) \<Rightarrow> addOrUpdateFastAccessItem e trackedItem (s3\<lparr>dailyLog := Some todaysLog2\<rparr>))"

definition addMenuItem :: "'n::{zero,plus} env \<Rightarrow> 'n MenuItem \<Rightarrow> string \<Rightarrow> ('n, 'w) app \<Rightarrow> (error + unit) \<times> ('n, 'w) app" where
  "addMenuItem e menuItem rest s =
     pushAndSave e (extractNutritionFromMenuItem e menuItem rest) (loadTodaysLog e s)"

text \<open>The argument of \<open>addCustomMeal\<close>: a name, the seven amounts and a serving size.\<close>

record 'n CustomMeal = "'n DailyNutrition" +
  meal_name :: string
  meal_serving_size :: string

definition addCustomMeal :: "'n::{zero,plus} env \<Rightarrow> 'n CustomMeal \<Rightarrow> ('n, 'w) app \<Rightarrow> (error + unit) \<times> ('n, 'w) app" where
  "addCustomMeal e customMeal s =
     pushAndSave e
       \<lparr>calories = calories customMeal,
        protein = protein customMeal,
        carbs = carbs customMeal,
        fat = fat customMeal,
        fiber = fiber customMeal,
        sugar = sugar customMeal,
        sodium = sodium customMeal,
        item_id = generateItemId e,
        name = meal_name customMeal,
        restaurant = ''Custom Meal'',
        serving_size = meal_serving_size customMeal,
        timestamp = now_timestamp e\<rparr>
       (loadTodaysLog e s)"

definition removeItem :: "'n::{zero,plus} env \<Rightarrow> string \<Rightarrow> ('n, 'w) app \<Rightarrow> (error + unit) \<times> ('n, 'w) app" where
  "removeItem e itemId s =
     (let ls = loadTodaysLog e s;
          todaysLog = fst ls;
          s1 = snd ls;
          todaysLog1 = todaysLog\<lparr>items := filter (\<lambda>item. item_id item \<noteq> itemId) (items todaysLog)\<rparr>;
          todaysLog2 = todaysLog1\<lparr>totals := calculateTotals (items todaysLog1)\<rparr>;
          s2 = s1\<lparr>dailyLog := Some todaysLog2\<rparr>
      in case AsyncStorage_setItem e (NutritionLog (currentDate s2)) (LogJson todaysLog2) s2 of
           (Inl err, s3) \<Rightarrow> (Inl err, s3)
         | (Inr u, s3) \<Rightarrow> (Inr (), s3\<lparr>dailyLog := Some todaysLog2\<rparr>))"

definition clearTodaysLog :: "'n::zero env \<Rightarrow> ('n, 'w) app \<Rightarrow> (error + unit) \<times> ('n, 'w) app" where
  "clearTodaysLog e s =
     (let d = getTodayString e
      in case AsyncStorage_removeItem e (NutritionLog d) s of
           (Inl err, s1) \<Rightarrow> (Inl err, s1)
         | (Inr u, s1) \<Rightarrow> (Inr (), s1\<lparr>dailyLog := Some (emptyLog d)\<rparr>))"

subsection \<open>Date rollover\<close>

text \<open>
  \<open>new Date(newDate + 'T00:00:00') < new Date(this.currentDate + 'T00:00:00')\<close> compares
  the local midnights of two calendar days, that is, for days that the clock can give,
  the days themselves.
\<close>

fun dateBefore :: "date \<Rightarrow> date \<Rightarrow> bool" where
  "dateBefore (y1, m1, d1) (y2, m2, d2) =
     (y1 < y2 \<or> (y1 = y2 \<and> (m1 < m2 \<or> (m1 = m2 \<and> d1 < d2))))"

text \<open>The write is inside a \<open>try\<close> whose \<open>catch\<close> only logs.\<close>

definition saveCurrentDayToHistory :: "'n env \<Rightarrow> date \<Rightarrow> ('n, 'w) app \<Rightarrow> ('n, 'w) app" where
  "saveCurrentDayToHistory e dateString s =
     (case dailyLog s of
        None \<Rightarrow> s
      | Some l \<Rightarrow>
          if length (items l) > 0
          then snd (AsyncStorage_setItem e (NutritionLog dateString) (LogJson (l\<lparr>date := dateString\<rparr>)) s)
          else s)"

text \<open>
  The unsubscribe function that \<open>onDateChange\<close> returns for a callback: \<open>indexOf\<close> finds
  the first entry that is this callback and \<open>splice\<close> removes it; nothing happens when
  there is none.
\<close>

fun spliceFirst :: "nat \<Rightarrow> 'w callback list \<Rightarrow> 'w callback list" where
  "spliceFirst k [] = []"
| "spliceFirst k (c # cs) = (if ident c = k then cs else c # spliceFirst k cs)"

definition unsubscribe :: "nat \<Rightarrow> ('n, 'w) app \<Rightarrow> ('n, 'w) app" where
  "unsubscribe k s = s\<lparr>dateChangeCallbacks := spliceFirst k (dateChangeCallbacks s)\<rparr>"

text \<open>
  \<open>dateChangeCallbacks.forEach\<close> with the \<open>try\<close>/\<open>catch\<close> around each call. \<open>forEach\<close> reads
  the length once and then visits the indices below it in the array as it is at that
  moment: \<open>notifyFrom n k\<close> has \<open>n\<close> indices left to visit, from \<open>k\<close> on, and an index that
  is no longer in the array is passed over. A callback that throws is logged and the loop
  goes on from the world and the array that it left.
\<close>

fun notifyFrom :: "nat \<Rightarrow> nat \<Rightarrow> 'w callback list \<Rightarrow> 'w \<Rightarrow> 'w callback list \<times> 'w" where
  "notifyFrom 0 k cbs w = (cbs, w)"
| "notifyFrom (Suc n) k cbs w =
     (if k < length cbs then
        (let callback = cbs ! k;
             cbs1 = foldl (\<lambda>l i. spliceFirst i l) cbs (unsubscribes callback w)
         in case run callback w of
              Returned w1 \<Rightarrow> notifyFrom n (Suc k) cbs1 w1
            | Threw w1 \<Rightarrow> notifyFrom n (Suc k) cbs1 w1)
      else notifyFrom n (Suc k) cbs w)"

definition notifyCallbacks :: "'w callback list \<Rightarrow> 'w \<Rightarrow> 'w callback list \<times> 'w" where
  "notifyCallbacks cbs w = notifyFrom (length cbs) 0 cbs w"

definition checkForDateChange :: "'n env \<Rightarrow> ('n, 'w) app \<Rightarrow> bool \<times> ('n, 'w) app" where
  "checkForDateChange e s =
     (let newDate = getTodayString e
      in if currentDate s \<noteq> newDate then
           if dateBefore newDate (currentDate s) then (False, s\<lparr>currentDate := newDate\<rparr>)
           else
             (let oldDate = currentDate s;
                  s1 = saveCurrentDayToHistory e oldDate s;
                  s2 = s1\<lparr>currentDate := newDate, dailyLog := None\<rparr>;
                  r = notifyCallbacks (dateChangeCallbacks s2) (world s2)
              in (True, s2\<lparr>dateChangeCallbacks := fst r, world := snd r\<rparr>))
         else (False, s))"

text \<open>\<open>onDateChange\<close> pushes the callback.\<close>

definition onDateChange :: "'w callback \<Rightarrow> ('n, 'w) app \<Rightarrow> ('n, 'w) app" where
  "onDateChange callback s = s\<lparr>dateChangeCallbacks := dateChangeCallbacks s @ [callback]\<rparr>"

subsection \<open>History\<close>

text \<open>\<open>key.startsWith('nutrition_log_')\<close>\<close>

fun isNutritionLogKey :: "key \<Rightarrow> bool" where
  "isNutritionLogKey (NutritionLog d) = True"
| "isNutritionLogKey _ = False"

text \<open>
  The loop over \<open>historicalKeys\<close>: a key whose read throws, whose value is falsy or does
  not parse is skipped; \<open>keep\<close> is the test on the parsed log.
\<close>

fun collectLogs :: "'n env \<Rightarrow> ('n DailyLog \<Rightarrow> bool) \<Rightarrow> key list \<Rightarrow> ('n, 'w) app \<Rightarrow> 'n DailyLog list \<times> ('n, 'w) app" where
  "collectLogs e keep [] s = ([], s)"
| "collectLogs e keep (k # ks) s =
     (case AsyncStorage_getItem e k s of
        (Inl err, s1) \<Rightarrow> collectLogs e keep ks s1
      | (Inr None, s1) \<Rightarrow> collectLogs e keep ks s1
      | (Inr (Some v), s1) \<Rightarrow>
          if truthy v then
            (case parseLog v of
               None \<Rightarrow> collectLogs e keep ks s1
             | Some l \<Rightarrow>
                 if keep l then (l # fst (collectLogs e keep ks s1), snd (collectLogs e keep ks s1))
                 else collectLogs e keep ks s1)
          else collectLogs e keep ks s1)"

text \<open>
  The comparator \<open>new Date(b.date).getTime() - new Date(a.date).getTime()\<close>: most recent
  first.
\<close>

definition logOrder :: "'n DailyLog \<Rightarrow> 'n DailyLog \<Rightarrow> bool" where
  "logOrder a b = (\<not> dateBefore (date a) (date b))"

text \<open>\<open>logs.slice(0, count)\<close>: a negative count is taken from the end.\<close>

definition slice0 :: "int \<Rightarrow> 'a list \<Rightarrow> 'a list" where
  "slice0 n xs = (if n < 0 then take (nat (int (length xs) + n)) xs else take (nat n) xs)"

definition historicalKeys :: "'n env \<Rightarrow> key list \<Rightarrow> key list" where
  "historicalKeys e ks =
     filter (\<lambda>k. k \<noteq> NutritionLog (getTodayString e)) (filter isNutritionLogKey ks)"

definition getMostRecentLogs :: "'n env \<Rightarrow> int \<Rightarrow> ('n, 'w) app \<Rightarrow> 'n DailyLog list \<times> ('n, 'w) app" where
  "getMostRecentLogs e n s =
     (case AsyncStorage_getAllKeys e s of
        (Inl err, s1) \<Rightarrow> ([], s1)
      | (Inr ks, s1) \<Rightarrow>
          (case collectLogs e (\<lambda>l. length (items l) > 0) (historicalKeys e ks) s1 of
             (logs, s2) \<Rightarrow> (slice0 n (sort_by logOrder logs), s2)))"

definition getAllHistoricalLogs :: "'n env \<Rightarrow> ('n, 'w) app \<Rightarrow> 'n DailyLog list \<times> ('n, 'w) app" where
  "getAllHistoricalLogs e s =
     (case AsyncStorage_getAllKeys e s of
        (Inl err, s1) \<Rightarrow> ([], s1)
      | (Inr ks, s1) \<Rightarrow>
          (case collectLogs e (\<lambda>l. True) (historicalKeys e ks) s1 of
             (logs, s2) \<Rightarrow> (sort_by logOrder logs, s2)))"

section \<open>Specifications and examples\<close>

subsection \<open>Totals\<close>

text \<open>
  The sum of one field over a list of items, added in the order of the list (the order
  of insertion, since \<open>push\<close> appends and \<open>filter\<close> keeps the order).
\<close>

definition sumField :: "('n TrackedItem \<Rightarrow> 'n) \<Rightarrow> 'n::{zero,plus} TrackedItem list \<Rightarrow> 'n" where
  "sumField f its = foldl (\<lambda>acc item. acc + f item) 0 its"

definition totalsMatchItems :: "'n::{zero,plus} DailyLog \<Rightarrow> bool" where
  "totalsMatchItems l =
     (calories (totals l) = sumField calories (items l) \<and>
      protein (totals l) = sumField protein (items l) \<and>
      carbs (totals l) = sumField carbs (items l) \<and>
      fat (totals l) = sumField fat (items l) \<and>
      fiber (totals l) = sumField fiber (items l) \<and>
      sugar (totals l) = sumField sugar (items l) \<and>
      sodium (totals l) = sumField sodium (items l))"

text \<open>
  A sequence of mutations, each with the environment it runs in. The state after a
  mutation is taken whether the mutation resolved or rejected.
\<close>

datatype 'n log_op = AddMenuItem "'n MenuItem" string | AddCustomMeal "'n CustomMeal" | RemoveItemOp string

fun applyOp :: "'n::{zero,plus} env \<times> 'n log_op \<Rightarrow> ('n, 'w) app \<Rightarrow> ('n, 'w) app" where
  "applyOp (e, AddMenuItem menuItem rest) s = snd (addMenuItem e menuItem rest s)"
| "applyOp (e, AddCustomMeal customMeal) s = snd (addCustomMeal e customMeal s)"
| "applyOp (e, RemoveItemOp itemId) s = snd (removeItem e itemId s)"

definition runOps :: "('n::{zero,plus} env \<times> 'n log_op) list \<Rightarrow> ('n, 'w) app \<Rightarrow> ('n, 'w) app" where
  "runOps ops s = foldl (\<lambda>s1 op. applyOp op s1) s ops"

subsection \<open>Callbacks\<close>


text \<open>Registering callbacks one after the other.\<close>

definition registerAll :: "'w callback list \<Rightarrow> ('n, 'w) app \<Rightarrow> ('n, 'w) app" where
  "registerAll cbs s = foldl (\<lambda>s1 callback. onDateChange callback s1) s cbs"

subsection \<open>Example values\<close>

text \<open>
  An environment in which no storage call throws, a custom meal, and a service just
  constructed on an empty store. The world of the examples is the list of the numbers
  that the callbacks have written.
\<close>

definition demoEnv :: "date \<Rightarrow> string \<Rightarrow> int \<Rightarrow> int env" where
  "demoEnv d i t =
     \<lparr>today = d, newItemId = i, now_timestamp = t, now_lastUsed = t,
      fails = (\<lambda>c. False), parseInt = (\<lambda>str. None)\<rparr>"

definition demoMeal :: "string \<Rightarrow> int \<Rightarrow> int CustomMeal" where
  "demoMeal nm c =
     \<lparr>calories = c, protein = 1, carbs = 2, fat = 3, fiber = 4, sugar = 5, sodium = 6,
      meal_name = nm, meal_serving_size = ''1 bowl''\<rparr>"

definition demoApp :: "date \<Rightarrow> (int, nat list) app" where
  "demoApp d =
     \<lparr>currentDate = d, dailyLog = None, dateChangeCallbacks = [], fastAccessItems = [],
      storage = [], storageCalls = [], world = []\<rparr>"

text \<open>
  Three callbacks that write their number into the world: the first returns, the second
  throws, the third calls its own unsubscribe function and returns. A service on day \<open>d\<close>
  whose log of that day holds two items of 500 calories together and is persisted.
\<close>

definition demoCallback :: "nat \<Rightarrow> nat list callback" where
  "demoCallback n = \<lparr>ident = n, run = (\<lambda>w. Returned (w @ [n])), unsubscribes = (\<lambda>w. [])\<rparr>"



definition demoItem :: "string \<Rightarrow> string \<Rightarrow> string \<Rightarrow> int \<Rightarrow> int \<Rightarrow> int TrackedItem" where
  "demoItem i nm rest c t =
     \<lparr>calories = c, protein = 1, carbs = 2, fat = 3, fiber = 4, sugar = 5, sodium = 6,
      item_id = i, name = nm, restaurant = rest, serving_size = ''1 bowl'', timestamp = t\<rparr>"

definition demoLog :: "date \<Rightarrow> int DailyLog" where
  "demoLog d =
     \<lparr>date = d,
      items = [demoItem ''a'' ''Soup'' ''Cafe'' 200 0, demoItem ''b'' ''Rice'' ''Cafe'' 300 0],
      totals = \<lparr>calories = 500, protein = 2, carbs = 4, fat = 6, fiber = 8, sugar = 10, sodium = 12\<rparr>\<rparr>"

definition demoDayApp :: "date \<Rightarrow> (int, nat list) app" where
  "demoDayApp d =
     \<lparr>currentDate = d, dailyLog = Some (demoLog d),
      dateChangeCallbacks = [],
      fastAccessItems = [],
      storage = [(NutritionLog d, LogJson (demoLog d))], storageCalls = [], world = []\<rparr>"

text \<open>A quick-access entry, and the log that holds one item.\<close>

definition demoEntry :: "string \<Rightarrow> string \<Rightarrow> string \<Rightarrow> int \<Rightarrow> int \<Rightarrow> int \<Rightarrow> int FastAccessItem" where
  "demoEntry i nm rest c t u =
     \<lparr>calories = c, protein = 1, carbs = 2, fat = 3, fiber = 4, sugar = 5, sodium = 6,
      item_id = i, name = nm, restaurant = rest, serving_size = ''1 bowl'',
      item_type = (if rest = ''Custom Meal'' then custom else restaurant_item),
      lastUsed = t, useCount = u\<rparr>"

definition oneItemLog :: "date \<Rightarrow> int TrackedItem \<Rightarrow> int DailyLog" where
  "oneItemLog d it =
     \<lparr>date = d, items = [it],
      totals = \<lparr>calories = calories it, protein = protein it, carbs = carbs it, fat = fat it,
                fiber = fiber it, sugar = sugar it, sodium = sodium it\<rparr>\<rparr>"

text \<open>
  An environment in which one storage call throws, and a service whose cached log holds
  an item that the store does not hold: the state of a new service after a meal was
  added and the write of the log threw.
\<close>

definition demoFailOn :: "date \<Rightarrow> storage_op \<Rightarrow> int env" where
  "demoFailOn d c =
     \<lparr>today = d, newItemId = ''u'', now_timestamp = 0, now_lastUsed = 0,
      fails = (\<lambda>c1. c1 = c), parseInt = (\<lambda>str. None)\<rparr>"

definition unsavedDemo :: "date \<Rightarrow> (int, nat list) app" where
  "unsavedDemo d =
     \<lparr>currentDate = d,
      dailyLog = Some (oneItemLog d (demoItem ''u'' ''Soup'' ''Custom Meal'' 200 0)),
      dateChangeCallbacks = [],
      fastAccessItems = [],
      storage = [],
      storageCalls = [GetItem (NutritionLog d), SetItem (NutritionLog d)], world = []\<rparr>"

text \<open>
  A store that has been on 12 March, was set back to 10 March and logged a meal on each
  of the two days. It is the state after these three calls on a new service: the clock
  reads 12 March and a meal is added; the clock reads 10 March at the next check; a meal
  is added.
\<close>

definition returnDemo :: "(int, nat list) app" where
  "returnDemo =
     \<lparr>currentDate = (2024, 3, 10),
      dailyLog = Some (oneItemLog (2024, 3, 10) (demoItem ''a'' ''Soup'' ''Custom Meal'' 200 300)),
      dateChangeCallbacks = [],
      fastAccessItems = [demoEntry ''a'' ''Soup'' ''Custom Meal'' 200 300 1,
                         demoEntry ''x'' ''Rice'' ''Custom Meal'' 300 100 1],
      storage =
        [(NutritionLog (2024, 3, 12),
            LogJson (oneItemLog (2024, 3, 12) (demoItem ''x'' ''Rice'' ''Custom Meal'' 300 100))),
         (FastAccessItems,
            FastJson [demoEntry ''a'' ''Soup'' ''Custom Meal'' 200 300 1,
                      demoEntry ''x'' ''Rice'' ''Custom Meal'' 300 100 1]),
         (NutritionLog (2024, 3, 10),
            LogJson (oneItemLog (2024, 3, 10) (demoItem ''a'' ''Soup'' ''Custom Meal'' 200 300)))],
      storageCalls =
        [GetItem (NutritionLog (2024, 3, 12)), SetItem (NutritionLog (2024, 3, 12)),
         GetItem FastAccessItems, SetItem FastAccessItems,
         GetItem (NutritionLog (2024, 3, 10)), SetItem (NutritionLog (2024, 3, 10)),
         SetItem FastAccessItems],
      world = []\<rparr>"

subsection \<open>Writes of today's log\<close>

text \<open>The cached log is the record stored under the key of the detected day.\<close>

definition logWritten :: "'n env \<Rightarrow> (error + unit) \<times> ('n, 'w) app \<Rightarrow> bool" where
  "logWritten e r =
     (\<exists>l. dailyLog (snd r) = Some l \<and>
          map_of (storage (snd r)) (NutritionLog (today e)) = Some (LogJson l))"

text \<open>
  An environment in which the write and the delete of the log of day \<open>d\<close> throw, a menu
  item, and a new service instance on a store that holds two quick-access entries.
\<close>

definition demoFailEnv :: "date \<Rightarrow> string \<Rightarrow> int \<Rightarrow> int env" where
  "demoFailEnv d i t =
     \<lparr>today = d, newItemId = i, now_timestamp = t, now_lastUsed = t,
      fails = (\<lambda>c. c = SetItem (NutritionLog d) \<or> c = RemoveItem (NutritionLog d)),
      parseInt = (\<lambda>str. None)\<rparr>"

definition demoMenuItem :: "int MenuItem" where
  "demoMenuItem =
     \<lparr>menu_name = ''Bagel'', menu_calories = CaloriesNumber 250,
      nutrition_facts = (\<lambda>k. if k = ''Protein'' then Some 9 else None),
      menu_serving_size = ''1 each''\<rparr>"

definition unloadedDemo :: "(int, nat list) app" where
  "unloadedDemo =
     \<lparr>currentDate = (2024, 3, 10), dailyLog = None, dateChangeCallbacks = [],
      fastAccessItems = [],
      storage = [(FastAccessItems,
                  FastJson [demoEntry ''a'' ''Soup'' ''Cafe'' 200 300 1,
                            demoEntry ''x'' ''Rice'' ''Cafe'' 300 100 1])],
      storageCalls = [], world = []\<rparr>"

subsection \<open>Consistency of the stored logs\<close>

text \<open>
  Every log record of the store carries the day of the key it is stored under. The
  services write log records in three places, each with the key's day in the record.
\<close>

fun entryConsistent :: "key \<times> 'n stored \<Rightarrow> bool" where
  "entryConsistent (NutritionLog d, LogJson l) = (date l = d)"
| "entryConsistent _ = True"

definition storageConsistent :: "'n storage \<Rightarrow> bool" where
  "storageConsistent st = list_all entryConsistent st"

text \<open>The state after one custom meal is added on 10 March by a new service on an empty store.\<close>

definition oneMealDemo :: "(int, nat list) app" where
  "oneMealDemo =
     \<lparr>currentDate = (2024, 3, 10),
      dailyLog = Some (oneItemLog (2024, 3, 10) (demoItem ''a'' ''Soup'' ''Custom Meal'' 200 100)),
      dateChangeCallbacks = [],
      fastAccessItems = [demoEntry ''a'' ''Soup'' ''Custom Meal'' 200 100 1],
      storage =
        [(NutritionLog (2024, 3, 10),
            LogJson (oneItemLog (2024, 3, 10) (demoItem ''a'' ''Soup'' ''Custom Meal'' 200 100))),
         (FastAccessItems, FastJson [demoEntry ''a'' ''Soup'' ''Custom Meal'' 200 100 1])],
      storageCalls =
        [GetItem (NutritionLog (2024, 3, 10)), SetItem (NutritionLog (2024, 3, 10)),
         GetItem FastAccessItems, SetItem FastAccessItems],
      world = []\<rparr>"

subsection \<open>The quick-access list: the claimed policy and examples\<close>

text \<open>
  The eviction policy in the words of the specification: after the add or update, a
  collection over capacity is fully re-sorted and its first ten entries are kept. To be
  compared with \<open>recordUse\<close>, which follows the source: cut first, then sort.
\<close>

definition recordUseSpec :: "int \<Rightarrow> 'n TrackedItem \<Rightarrow> 'n FastAccessItem list \<Rightarrow> 'n FastAccessItem list" where
  "recordUseSpec t trackedItem xs =
     (let ys = upsertFastAccessItem t trackedItem xs
      in if length ys > maxItems then take maxItems (sort_by fastAccessOrder ys)
         else sort_by fastAccessOrder ys)"

text \<open>
  The list that \<open>addOrUpdateFastAccessItem\<close> works on: the list in memory, or what
  \<open>loadFastAccessItems\<close> leaves there when the list in memory is empty.
\<close>

definition loadedItems :: "'n env \<Rightarrow> ('n, 'w) app \<Rightarrow> 'n FastAccessItem list" where
  "loadedItems e s =
     (if length (fastAccessItems s) = 0 then fastAccessItems (snd (loadFastAccessItems e s))
      else fastAccessItems s)"

text \<open>
  Ten entries used at the times 100 to 109, most recent first, and a service that holds
  them in memory and in the store.
\<close>

definition tenEntries :: "int FastAccessItem list" where
  "tenEntries =
     [demoEntry ''e9'' ''Meal 9'' ''Cafe'' 100 109 1,
      demoEntry ''e8'' ''Meal 8'' ''Cafe'' 100 108 1,
      demoEntry ''e7'' ''Meal 7'' ''Cafe'' 100 107 1,
      demoEntry ''e6'' ''Meal 6'' ''Cafe'' 100 106 1,
      demoEntry ''e5'' ''Meal 5'' ''Cafe'' 100 105 1,
      demoEntry ''e4'' ''Meal 4'' ''Cafe'' 100 104 1,
      demoEntry ''e3'' ''Meal 3'' ''Cafe'' 100 103 1,
      demoEntry ''e2'' ''Meal 2'' ''Cafe'' 100 102 1,
      demoEntry ''e1'' ''Meal 1'' ''Cafe'' 100 101 1,
      demoEntry ''e0'' ''Meal 0'' ''Cafe'' 100 100 1]"

definition fullDemo :: "(int, nat list) app" where
  "fullDemo =
     \<lparr>currentDate = (2024, 3, 10), dailyLog = None, dateChangeCallbacks = [],
      fastAccessItems = tenEntries,
      storage = [(FastAccessItems, FastJson tenEntries)],
      storageCalls = [], world = []\<rparr>"

text \<open>
  The entry after a re-use: \<open>lastUsed\<close> is the time of the call, \<open>useCount\<close> is one more, the
  seven amounts and the serving size are the new item's, and the id, name, restaurant
  and type stay.
\<close>

definition refreshed :: "int \<Rightarrow> 'n TrackedItem \<Rightarrow> 'n FastAccessItem \<Rightarrow> 'n FastAccessItem" where
  "refreshed t trackedItem x =
     x\<lparr>lastUsed := t, useCount := useCount x + 1,
       calories := calories trackedItem, protein := protein trackedItem,
       carbs := carbs trackedItem, fat := fat trackedItem, fiber := fiber trackedItem,
       sugar := sugar trackedItem, sodium := sodium trackedItem,
       serving_size := serving_size trackedItem\<rparr>"

text \<open>The pair that identifies a quick-access entry, and a sequence of recorded uses.\<close>

definition entryKey :: "('n, 'z) FoodEntry_scheme \<Rightarrow> string \<times> string" where
  "entryKey x = (name x, restaurant x)"

definition recordUses :: "('n env \<times> 'n TrackedItem) list \<Rightarrow> ('n, 'w) app \<Rightarrow> ('n, 'w) app" where
  "recordUses us s = foldl (\<lambda>s1 u. snd (addOrUpdateFastAccessItem (fst u) (snd u) s1)) s us"

text \<open>Eleven uses of eleven different meals, at the times 100 to 110.\<close>

definition demoUse :: "string \<Rightarrow> string \<Rightarrow> int \<Rightarrow> int env \<times> int TrackedItem" where
  "demoUse i nm t = (demoEnv (2024, 3, 10) i t, demoItem i nm ''Cafe'' 100 t)"

definition elevenUses :: "(int env \<times> int TrackedItem) list" where
  "elevenUses =
     [demoUse ''e0'' ''Meal 0'' 100, demoUse ''e1'' ''Meal 1'' 101, demoUse ''e2'' ''Meal 2'' 102,
      demoUse ''e3'' ''Meal 3'' 103, demoUse ''e4'' ''Meal 4'' 104, demoUse ''e5'' ''Meal 5'' 105,
      demoUse ''e6'' ''Meal 6'' 106, demoUse ''e7'' ''Meal 7'' 107, demoUse ''e8'' ''Meal 8'' 108,
      demoUse ''e9'' ''Meal 9'' 109, demoUse ''eA'' ''Meal A'' 110]"

text \<open>
  The capacity of the quick-access list: at most \<open>maxItems\<close> entries in memory and in the
  list stored under \<open>fast_access_items\<close>.
\<close>

definition withinCapacity :: "('n, 'w) app \<Rightarrow> bool" where
  "withinCapacity s =
     (length (fastAccessItems s) \<le> maxItems
      \<and> (case map_of (storage s) FastAccessItems of
           Some (FastJson xs) \<Rightarrow> length xs \<le> maxItems
         | _ \<Rightarrow> True))"

section \<open>Properties\<close>

subsection \<open>Totals of the daily log\<close>

lemma foldl_totals_fields:
  fixes acc :: "'n::{zero,plus} DailyNutrition"
  defines "step \<equiv> (\<lambda>tot (item :: 'n TrackedItem).
        \<lparr>calories = calories tot + calories item,
         protein = protein tot + protein item,
         carbs = carbs tot + carbs item,
         fat = fat tot + fat item,
         fiber = fiber tot + fiber item,
         sugar = sugar tot + sugar item,
         sodium = sodium tot + sodium item\<rparr>)"
  shows "calories (foldl step acc its) = foldl (\<lambda>a item. a + calories item) (calories acc) its"
    and "protein (foldl step acc its) = foldl (\<lambda>a item. a + protein item) (protein acc) its"
    and "carbs (foldl step acc its) = foldl (\<lambda>a item. a + carbs item) (carbs acc) its"
    and "fat (foldl step acc its) = foldl (\<lambda>a item. a + fat item) (fat acc) its"
    and "fiber (foldl step acc its) = foldl (\<lambda>a item. a + fiber item) (fiber acc) its"
    and "sugar (foldl step acc its) = foldl (\<lambda>a item. a + sugar item) (sugar acc) its"
    and "sodium (foldl step acc its) = foldl (\<lambda>a item. a + sodium item) (sodium acc) its"
  unfolding step_def by (induction its arbitrary: acc) simp_all

lemma calculateTotals_matches:
  "totalsMatchItems (l\<lparr>totals := calculateTotals (items l)\<rparr>)"
  by (simp add: totalsMatchItems_def calculateTotals_def sumField_def foldl_totals_fields zeroTotals_def)

lemma addOrUpdate_dailyLog:
  "dailyLog (snd (addOrUpdateFastAccessItem e t s)) = dailyLog s"
  by (simp add: addOrUpdateFastAccessItem_def loadFastAccessItems_def Let_def
      AsyncStorage_setItem_def AsyncStorage_getItem_def split: sum.splits option.splits)

lemma pushAndSave_totals:
  "\<exists>l. dailyLog (snd (pushAndSave e t ls)) = Some l \<and> totalsMatchItems l"
  using calculateTotals_matches[of "(fst ls)\<lparr>items := items (fst ls) @ [t]\<rparr>"]
  by (simp add: pushAndSave_def Let_def addOrUpdate_dailyLog AsyncStorage_setItem_def)

lemma removeItem_totals:
  "\<exists>l. dailyLog (snd (removeItem e i s)) = Some l \<and> totalsMatchItems l"
  using calculateTotals_matches[of "(fst (loadTodaysLog e s))\<lparr>items := filter (\<lambda>item. item_id item \<noteq> i) (items (fst (loadTodaysLog e s)))\<rparr>"]
  by (simp add: removeItem_def Let_def AsyncStorage_setItem_def)

lemma applyOp_totals:
  "\<exists>l. dailyLog (applyOp op s) = Some l \<and> totalsMatchItems l"
proof (cases op)
  case (Pair e o1)
  then show ?thesis
    by (cases o1) (simp_all add: addMenuItem_def addCustomMeal_def pushAndSave_totals removeItem_totals)
qed

text \<open>
  C1. For every sequence of \<open>addMenuItem\<close>, \<open>addCustomMeal\<close> and \<open>removeItem\<close> calls, from
  any state, in any environments and whether the calls resolved or rejected: after each
  of them (after the first \<open>n\<close> calls, for every \<open>n\<close> from 1 to the length of the
  sequence) the cached log exists and each of its seven totals is the sum of that field
  over its items, added from zero in the order of the list.
\<close>

theorem totals_invariant:
  "0 < n \<Longrightarrow> n \<le> length ops \<Longrightarrow>
   \<exists>l. dailyLog (runOps (take n ops) s) = Some l \<and> totalsMatchItems l"
proof -
  assume "0 < n" and le: "n \<le> length ops"
  then obtain m where n: "n = Suc m" by (cases n) auto
  with le have "take n ops = take m ops @ [ops ! m]"
    by (simp add: take_Suc_conv_app_nth)
  then have "runOps (take n ops) s = applyOp (ops ! m) (runOps (take m ops) s)"
    by (simp add: runOps_def)
  then show ?thesis
    using applyOp_totals[of "ops ! m" "runOps (take m ops) s"] by simp
qed

theorem totals_invariant_witness:
  "(0::nat) < 2
   \<and> 2 \<le> length
        [(demoEnv (2024, 3, 10) ''a'' 100, AddCustomMeal (demoMeal ''Soup'' 200)),
         (demoEnv (2024, 3, 10) ''b'' 101, AddMenuItem demoMenuItem ''Cafe''),
         (demoEnv (2024, 3, 10) ''c'' 102, RemoveItemOp ''a'')]
   \<and> (\<exists>l. dailyLog (runOps (take 2
          [(demoEnv (2024, 3, 10) ''a'' 100, AddCustomMeal (demoMeal ''Soup'' 200)),
           (demoEnv (2024, 3, 10) ''b'' 101, AddMenuItem demoMenuItem ''Cafe''),
           (demoEnv (2024, 3, 10) ''c'' 102, RemoveItemOp ''a'')])
          (demoApp (2024, 3, 10))) = Some l \<and> totalsMatchItems l)"
  using totals_invariant[of 2
      "[(demoEnv (2024, 3, 10) ''a'' 100, AddCustomMeal (demoMeal ''Soup'' 200)),
        (demoEnv (2024, 3, 10) ''b'' 101, AddMenuItem demoMenuItem ''Cafe''),
        (demoEnv (2024, 3, 10) ''c'' 102, RemoveItemOp ''a'')]" "demoApp (2024, 3, 10)"]
  by simp

subsection \<open>The rollover check\<close>

lemma dateBefore_irrefl: "\<not> dateBefore d d"
  by (cases d) auto


lemma dateBefore_neq: "dateBefore a b \<Longrightarrow> a \<noteq> b"
  using dateBefore_irrefl by blast

lemma registerAll_eq:
  "registerAll cbs s = s\<lparr>dateChangeCallbacks := dateChangeCallbacks s @ cbs\<rparr>"
  unfolding registerAll_def
  by (induction cbs arbitrary: s) (simp_all add: onDateChange_def)

lemma currentDate_after_check: "currentDate (snd (checkForDateChange e s)) = today e"
  by (simp add: checkForDateChange_def getTodayString_def Let_def)


text \<open>
  C3. When the detected day is earlier than \<open>currentDate\<close>, the check returns \<open>False\<close> and
  changes \<open>currentDate\<close> only: the store and the list of calls made to it are as before
  (nothing is archived), the cached log is as before (its items are still there), and
  the world is as before (no callback ran).
\<close>

theorem backward_resync:
  "dateBefore (today e) (currentDate s) \<Longrightarrow>
   checkForDateChange e s = (False, s\<lparr>currentDate := today e\<rparr>)"
  using dateBefore_neq[of "today e" "currentDate s"]
  by (auto simp add: checkForDateChange_def getTodayString_def Let_def)

theorem backward_resync_witness:
  "dateBefore (today (demoEnv (2024, 3, 9) [] 0))
     (currentDate (registerAll [demoCallback 1] (demoDayApp (2024, 3, 10))))
   \<and> checkForDateChange (demoEnv (2024, 3, 9) [] 0) (registerAll [demoCallback 1] (demoDayApp (2024, 3, 10)))
       = (False, (registerAll [demoCallback 1] (demoDayApp (2024, 3, 10)))\<lparr>currentDate := (2024, 3, 9)\<rparr>)"
  using backward_resync[of "demoEnv (2024, 3, 9) [] 0" "registerAll [demoCallback 1] (demoDayApp (2024, 3, 10))"]
  by (simp add: demoEnv_def demoDayApp_def registerAll_eq)

text \<open>
  C7. A second check on the same day as the first returns \<open>False\<close> and leaves the whole
  state as the first check left it: \<open>currentDate\<close>, the store and the list of calls made
  to the store (no second write), whatever the first check did.
\<close>

theorem rollover_idempotent:
  "today e2 = today e1 \<Longrightarrow>
   checkForDateChange e2 (snd (checkForDateChange e1 s)) = (False, snd (checkForDateChange e1 s))"
  using currentDate_after_check[of e1 s]
  by (simp add: checkForDateChange_def[of e2] getTodayString_def Let_def)

theorem rollover_idempotent_witness:
  "today (demoEnv (2024, 3, 12) [] 1) = today (demoEnv (2024, 3, 12) [] 0)
   \<and> checkForDateChange (demoEnv (2024, 3, 12) [] 1)
         (snd (checkForDateChange (demoEnv (2024, 3, 12) [] 0) (demoDayApp (2024, 3, 10))))
       = (False, snd (checkForDateChange (demoEnv (2024, 3, 12) [] 0) (demoDayApp (2024, 3, 10))))
   \<and> storageCalls (snd (checkForDateChange (demoEnv (2024, 3, 12) [] 1)
         (snd (checkForDateChange (demoEnv (2024, 3, 12) [] 0) (demoDayApp (2024, 3, 10))))))
       = [SetItem (NutritionLog (2024, 3, 10))]"
proof -
  have d: "today (demoEnv (2024, 3, 12) [] 1) = today (demoEnv (2024, 3, 12) [] 0)"
    by (simp add: demoEnv_def)
  have c: "storageCalls (snd (checkForDateChange (demoEnv (2024, 3, 12) [] 0) (demoDayApp (2024, 3, 10))))
       = [SetItem (NutritionLog (2024, 3, 10))]"
    by (simp add: checkForDateChange_def getTodayString_def Let_def demoEnv_def demoDayApp_def
        saveCurrentDayToHistory_def AsyncStorage_setItem_def demoLog_def)
  show ?thesis
    using rollover_idempotent[OF d, of "demoDayApp (2024, 3, 10)"] d c by simp
qed

subsection \<open>Forward rollover\<close>










text \<open>
  The call that leads a new service to \<open>unsavedDemo\<close>, and the three calls that lead a new
  service on an empty store to \<open>returnDemo\<close>.
\<close>

lemmas run_defs = addCustomMeal_def pushAndSave_def loadTodaysLog_def readStoredLog_def
  AsyncStorage_getItem_def AsyncStorage_setItem_def addOrUpdateFastAccessItem_def
  loadFastAccessItems_def recordUse_def upsertFastAccessItem_def sort_by_def
  checkForDateChange_def getTodayString_def generateItemId_def emptyLog_def zeroTotals_def
  calculateTotals_def saveCurrentDayToHistory_def maxItems_def fastAccessOrder_def
  demoEnv_def demoMeal_def demoApp_def Let_def

lemma unsavedDemo_reached:
  "snd (addCustomMeal (demoFailOn d (SetItem (NutritionLog d))) (demoMeal ''Soup'' 200) (demoApp d))
     = unsavedDemo d"
  by (simp add: run_defs demoFailOn_def unsavedDemo_def demoItem_def oneItemLog_def)

lemma returnDemo_reached:
  "snd (addCustomMeal (demoEnv (2024, 3, 10) ''a'' 300) (demoMeal ''Soup'' 200)
       (snd (checkForDateChange (demoEnv (2024, 3, 10) [] 200)
         (snd (addCustomMeal (demoEnv (2024, 3, 12) ''x'' 100) (demoMeal ''Rice'' 300)
           (demoApp (2024, 3, 12))))))) = returnDemo"
  by (simp add: run_defs returnDemo_def demoEntry_def demoItem_def oneItemLog_def)


subsection \<open>Listeners\<close>






subsection \<open>Failed writes\<close>

lemma load_currentDate: "currentDate (snd (loadTodaysLog e s)) = today e"
  by (simp add: loadTodaysLog_def getTodayString_def Let_def readStoredLog_def
      AsyncStorage_getItem_def split: option.splits prod.splits sum.splits)

lemma addOrUpdate_log_record:
  "map_of (storage (snd (addOrUpdateFastAccessItem e t s))) (NutritionLog d)
     = map_of (storage s) (NutritionLog d)"
  by (simp add: addOrUpdateFastAccessItem_def loadFastAccessItems_def Let_def
      AsyncStorage_setItem_def AsyncStorage_getItem_def update_conv'
      split: sum.splits option.splits)

lemma pushAndSave_rejects:
  "fails e (SetItem (NutritionLog (currentDate (snd ls)))) \<Longrightarrow>
   fst (pushAndSave e t ls) = Inl (StorageError (SetItem (NutritionLog (currentDate (snd ls)))))"
  by (simp add: pushAndSave_def Let_def AsyncStorage_setItem_def)

lemma pushAndSave_success:
  "fst (pushAndSave e t ls) = Inr () \<Longrightarrow>
   \<not> fails e (SetItem (NutritionLog (currentDate (snd ls)))) \<and>
   (\<exists>l. dailyLog (snd (pushAndSave e t ls)) = Some l \<and>
        map_of (storage (snd (pushAndSave e t ls))) (NutritionLog (currentDate (snd ls))) = Some (LogJson l))"
  by (auto simp add: pushAndSave_def Let_def AsyncStorage_setItem_def addOrUpdate_dailyLog
      addOrUpdate_log_record update_conv' split: if_splits)

lemma removeItem_rejects:
  "fails e (SetItem (NutritionLog (today e))) \<Longrightarrow>
   fst (removeItem e i s) = Inl (StorageError (SetItem (NutritionLog (today e))))"
  by (simp add: removeItem_def Let_def AsyncStorage_setItem_def load_currentDate)

lemma removeItem_success:
  "fst (removeItem e i s) = Inr () \<Longrightarrow>
   \<not> fails e (SetItem (NutritionLog (today e))) \<and>
   (\<exists>l. dailyLog (snd (removeItem e i s)) = Some l \<and>
        map_of (storage (snd (removeItem e i s))) (NutritionLog (today e)) = Some (LogJson l))"
  by (auto simp add: removeItem_def Let_def AsyncStorage_setItem_def load_currentDate
      update_conv' split: if_splits)

lemma clear_rejects:
  "fails e (RemoveItem (NutritionLog (today e))) \<Longrightarrow>
   fst (clearTodaysLog e s) = Inl (StorageError (RemoveItem (NutritionLog (today e))))"
  by (simp add: clearTodaysLog_def Let_def AsyncStorage_removeItem_def getTodayString_def)

lemma clear_success:
  "fst (clearTodaysLog e s) = Inr () \<Longrightarrow>
   \<not> fails e (RemoveItem (NutritionLog (today e))) \<and>
   map_of (storage (snd (clearTodaysLog e s))) (NutritionLog (today e)) = None"
  by (auto simp add: clearTodaysLog_def Let_def AsyncStorage_removeItem_def getTodayString_def
      delete_conv' split: if_splits)

lemma addOrUpdate_resolves:
  "\<not> fails e (SetItem FastAccessItems) \<Longrightarrow> fst (addOrUpdateFastAccessItem e t s) = Inr ()"
  by (simp add: addOrUpdateFastAccessItem_def Let_def AsyncStorage_setItem_def)

lemma pushAndSave_resolves:
  "\<not> fails e (SetItem (NutritionLog (currentDate (snd ls)))) \<Longrightarrow> \<not> fails e (SetItem FastAccessItems) \<Longrightarrow>
   fst (pushAndSave e t ls) = Inr ()"
  by (simp add: pushAndSave_def Let_def AsyncStorage_setItem_def addOrUpdate_resolves)

lemma removeItem_resolves:
  "\<not> fails e (SetItem (NutritionLog (today e))) \<Longrightarrow> fst (removeItem e i s) = Inr ()"
  by (simp add: removeItem_def Let_def AsyncStorage_setItem_def load_currentDate)

lemma clear_resolves:
  "\<not> fails e (RemoveItem (NutritionLog (today e))) \<Longrightarrow> fst (clearTodaysLog e s) = Inr ()"
  by (simp add: clearTodaysLog_def Let_def AsyncStorage_removeItem_def getTodayString_def)

text \<open>
  C9. If the write of today's log throws, \<open>addMenuItem\<close>, \<open>addCustomMeal\<close> and
  \<open>removeItem\<close> reject with that error, and if the delete throws, \<open>clearTodaysLog\<close> does.
  A call that resolves has completed its write: after it the store holds the cached log
  under today's key, or nothing under that key after \<open>clearTodaysLog\<close>.
\<close>

theorem write_failure_rejects:
  "(fails e (SetItem (NutritionLog (today e))) \<longrightarrow>
      fst (addMenuItem e menuItem rest s) = Inl (StorageError (SetItem (NutritionLog (today e))))
    \<and> fst (addCustomMeal e customMeal s) = Inl (StorageError (SetItem (NutritionLog (today e))))
    \<and> fst (removeItem e itemId s) = Inl (StorageError (SetItem (NutritionLog (today e)))))
   \<and> (fails e (RemoveItem (NutritionLog (today e))) \<longrightarrow>
      fst (clearTodaysLog e s) = Inl (StorageError (RemoveItem (NutritionLog (today e)))))
   \<and> (fst (addMenuItem e menuItem rest s) = Inr () \<longrightarrow> logWritten e (addMenuItem e menuItem rest s))
   \<and> (fst (addCustomMeal e customMeal s) = Inr () \<longrightarrow> logWritten e (addCustomMeal e customMeal s))
   \<and> (fst (removeItem e itemId s) = Inr () \<longrightarrow> logWritten e (removeItem e itemId s))
   \<and> (fst (clearTodaysLog e s) = Inr () \<longrightarrow>
        map_of (storage (snd (clearTodaysLog e s))) (NutritionLog (today e)) = None)"
proof -
  let ?ls = "loadTodaysLog e s"
  have cd: "currentDate (snd ?ls) = today e" by (rule load_currentDate)
  have a: "fails e (SetItem (NutritionLog (today e))) \<longrightarrow>
      fst (addMenuItem e menuItem rest s) = Inl (StorageError (SetItem (NutritionLog (today e))))"
    using pushAndSave_rejects[where e = e and ls = ?ls and t = "extractNutritionFromMenuItem e menuItem rest"]
    by (simp add: addMenuItem_def cd)
  have b: "fails e (SetItem (NutritionLog (today e))) \<longrightarrow>
      fst (addCustomMeal e customMeal s) = Inl (StorageError (SetItem (NutritionLog (today e))))"
    unfolding addCustomMeal_def
    using pushAndSave_rejects[where e = e and ls = ?ls] by (simp add: cd)
  have c: "fails e (SetItem (NutritionLog (today e))) \<longrightarrow>
      fst (removeItem e itemId s) = Inl (StorageError (SetItem (NutritionLog (today e))))"
    using removeItem_rejects[of e itemId s] by simp
  have d: "fails e (RemoveItem (NutritionLog (today e))) \<longrightarrow>
      fst (clearTodaysLog e s) = Inl (StorageError (RemoveItem (NutritionLog (today e))))"
    using clear_rejects[of e s] by simp
  have f: "fst (addMenuItem e menuItem rest s) = Inr () \<longrightarrow> logWritten e (addMenuItem e menuItem rest s)"
    using pushAndSave_success[where e = e and ls = ?ls and t = "extractNutritionFromMenuItem e menuItem rest"]
    by (simp add: addMenuItem_def cd logWritten_def)
  have g: "fst (addCustomMeal e customMeal s) = Inr () \<longrightarrow> logWritten e (addCustomMeal e customMeal s)"
    unfolding addCustomMeal_def logWritten_def
    using pushAndSave_success[where e = e and ls = ?ls] by (simp add: cd)
  have h: "fst (removeItem e itemId s) = Inr () \<longrightarrow> logWritten e (removeItem e itemId s)"
    using removeItem_success[of e itemId s] by (simp add: logWritten_def)
  have i: "fst (clearTodaysLog e s) = Inr () \<longrightarrow>
        map_of (storage (snd (clearTodaysLog e s))) (NutritionLog (today e)) = None"
    using clear_success[of e s] by simp
  show ?thesis using a b c d f g h i by blast
qed


theorem write_failure_rejects_witness:
  "fails (demoFailEnv (2024, 3, 10) ''c'' 5) (SetItem (NutritionLog (today (demoFailEnv (2024, 3, 10) ''c'' 5))))
   \<and> fails (demoFailEnv (2024, 3, 10) ''c'' 5) (RemoveItem (NutritionLog (today (demoFailEnv (2024, 3, 10) ''c'' 5))))
   \<and> fst (addMenuItem (demoFailEnv (2024, 3, 10) ''c'' 5) demoMenuItem ''Cafe'' (demoDayApp (2024, 3, 10)))
       = Inl (StorageError (SetItem (NutritionLog (2024, 3, 10))))
   \<and> fst (addCustomMeal (demoFailEnv (2024, 3, 10) ''c'' 5) (demoMeal ''Soup'' 200) (demoDayApp (2024, 3, 10)))
       = Inl (StorageError (SetItem (NutritionLog (2024, 3, 10))))
   \<and> fst (removeItem (demoFailEnv (2024, 3, 10) ''c'' 5) ''a'' (demoDayApp (2024, 3, 10)))
       = Inl (StorageError (SetItem (NutritionLog (2024, 3, 10))))
   \<and> fst (clearTodaysLog (demoFailEnv (2024, 3, 10) ''c'' 5) (demoDayApp (2024, 3, 10)))
       = Inl (StorageError (RemoveItem (NutritionLog (2024, 3, 10))))
   \<and> fst (addMenuItem (demoEnv (2024, 3, 10) ''c'' 5) demoMenuItem ''Cafe'' (demoDayApp (2024, 3, 10))) = Inr ()
   \<and> logWritten (demoEnv (2024, 3, 10) ''c'' 5)
        (addMenuItem (demoEnv (2024, 3, 10) ''c'' 5) demoMenuItem ''Cafe'' (demoDayApp (2024, 3, 10)))
   \<and> fst (addCustomMeal (demoEnv (2024, 3, 10) ''c'' 5) (demoMeal ''Soup'' 200) (demoDayApp (2024, 3, 10))) = Inr ()
   \<and> logWritten (demoEnv (2024, 3, 10) ''c'' 5)
        (addCustomMeal (demoEnv (2024, 3, 10) ''c'' 5) (demoMeal ''Soup'' 200) (demoDayApp (2024, 3, 10)))
   \<and> fst (removeItem (demoEnv (2024, 3, 10) ''c'' 5) ''a'' (demoDayApp (2024, 3, 10))) = Inr ()
   \<and> logWritten (demoEnv (2024, 3, 10) ''c'' 5)
        (removeItem (demoEnv (2024, 3, 10) ''c'' 5) ''a'' (demoDayApp (2024, 3, 10)))
   \<and> fst (clearTodaysLog (demoEnv (2024, 3, 10) ''c'' 5) (demoDayApp (2024, 3, 10))) = Inr ()
   \<and> map_of (storage (snd (clearTodaysLog (demoEnv (2024, 3, 10) ''c'' 5) (demoDayApp (2024, 3, 10)))))
        (NutritionLog (2024, 3, 10)) = None"
proof -
  let ?fe = "demoFailEnv (2024, 3, 10) ''c'' 5"
  let ?oe = "demoEnv (2024, 3, 10) ''c'' 5"
  let ?s = "demoDayApp (2024, 3, 10)"
  have fe: "today ?fe = (2024, 3, 10)" "fails ?fe (SetItem (NutritionLog (2024, 3, 10)))"
    "fails ?fe (RemoveItem (NutritionLog (2024, 3, 10)))"
    by (simp_all add: demoFailEnv_def)
  have oe: "today ?oe = (2024, 3, 10)" "\<And>c. \<not> fails ?oe c"
    by (simp_all add: demoEnv_def)
  have ok: "fst (addMenuItem ?oe demoMenuItem ''Cafe'' ?s) = Inr ()"
    "fst (addCustomMeal ?oe (demoMeal ''Soup'' 200) ?s) = Inr ()"
    "fst (removeItem ?oe ''a'' ?s) = Inr ()"
    "fst (clearTodaysLog ?oe ?s) = Inr ()"
    by (simp_all add: addMenuItem_def addCustomMeal_def pushAndSave_resolves removeItem_resolves
        clear_resolves oe)
  show ?thesis
    using write_failure_rejects[of ?fe demoMenuItem "''Cafe''" ?s "demoMeal ''Soup'' 200" "''a''"]
      write_failure_rejects[of ?oe demoMenuItem "''Cafe''" ?s "demoMeal ''Soup'' 200" "''a''"]
      fe oe(1) ok
    by simp
qed

subsection \<open>Removing a quick-access entry\<close>

text \<open>
  C10. \<open>removeFastAccessItem\<close> makes one call to the store, the write: it reads nothing.
  It filters the list in memory, and a write that does not throw stores that filtered
  list. On an instance whose list in memory is empty the stored value becomes the empty
  list, whatever was stored before.
\<close>

theorem remove_writes_cache_only:
  "storageCalls (snd (removeFastAccessItem e itemId s)) = storageCalls s @ [SetItem FastAccessItems]
   \<and> fastAccessItems (snd (removeFastAccessItem e itemId s))
       = filter (\<lambda>item. item_id item \<noteq> itemId) (fastAccessItems s)
   \<and> (\<not> fails e (SetItem FastAccessItems) \<longrightarrow>
        fst (removeFastAccessItem e itemId s) = Inr ()
        \<and> map_of (storage (snd (removeFastAccessItem e itemId s))) FastAccessItems
            = Some (FastJson (filter (\<lambda>item. item_id item \<noteq> itemId) (fastAccessItems s))))
   \<and> (fastAccessItems s = [] \<and> \<not> fails e (SetItem FastAccessItems) \<longrightarrow>
        map_of (storage (snd (removeFastAccessItem e itemId s))) FastAccessItems = Some (FastJson []))"
  by (simp add: removeFastAccessItem_def Let_def AsyncStorage_setItem_def update_conv')

theorem remove_writes_cache_only_witness:
  "fastAccessItems unloadedDemo = []
   \<and> \<not> fails (demoEnv (2024, 3, 10) [] 0) (SetItem FastAccessItems)
   \<and> map_of (storage unloadedDemo) FastAccessItems
       = Some (FastJson [demoEntry ''a'' ''Soup'' ''Cafe'' 200 300 1,
                         demoEntry ''x'' ''Rice'' ''Cafe'' 300 100 1])
   \<and> fst (removeFastAccessItem (demoEnv (2024, 3, 10) [] 0) ''a'' unloadedDemo) = Inr ()
   \<and> storageCalls (snd (removeFastAccessItem (demoEnv (2024, 3, 10) [] 0) ''a'' unloadedDemo))
       = [SetItem FastAccessItems]
   \<and> map_of (storage (snd (removeFastAccessItem (demoEnv (2024, 3, 10) [] 0) ''a'' unloadedDemo)))
        FastAccessItems = Some (FastJson [])"
proof -
  have h: "fastAccessItems unloadedDemo = []"
    "\<not> fails (demoEnv (2024, 3, 10) [] 0) (SetItem FastAccessItems)"
    "storageCalls unloadedDemo = []"
    "map_of (storage unloadedDemo) FastAccessItems
       = Some (FastJson [demoEntry ''a'' ''Soup'' ''Cafe'' 200 300 1,
                         demoEntry ''x'' ''Rice'' ''Cafe'' 300 100 1])"
    by (simp_all add: unloadedDemo_def demoEnv_def)
  show ?thesis
    using remove_writes_cache_only[of "demoEnv (2024, 3, 10) [] 0" "''a''" unloadedDemo] h
    by simp
qed

subsection \<open>History\<close>

lemma mset_insort_by: "mset (insort_by le x xs) = add_mset x (mset xs)"
  by (induction xs) auto

lemma mset_sort_by: "mset (sort_by le xs) = mset xs"
  unfolding sort_by_def by (induction xs) (auto simp: mset_insort_by)

lemma set_sort_by: "set (sort_by le xs) = set xs"
  using mset_sort_by[of le xs] by (metis set_mset_mset)

lemma length_sort_by: "length (sort_by le xs) = length xs"
  using mset_sort_by[of le xs] by (metis size_mset)

lemma set_slice0: "set (slice0 n xs) \<subseteq> set xs"
  by (simp add: slice0_def set_take_subset)

lemma consistent_lookup:
  "storageConsistent st \<Longrightarrow> map_of st (NutritionLog d) = Some (LogJson l) \<Longrightarrow> date l = d"
  by (auto simp add: storageConsistent_def list_all_iff dest!: map_of_SomeD)

lemma consistent_update_log:
  "storageConsistent st \<Longrightarrow> date l = d \<Longrightarrow>
   storageConsistent (AList.update (NutritionLog d) (LogJson l) st)"
  unfolding storageConsistent_def by (induction st) auto

lemma consistent_update_fast:
  "storageConsistent st \<Longrightarrow> storageConsistent (AList.update FastAccessItems v st)"
  unfolding storageConsistent_def by (induction st) auto

lemma consistent_delete:
  "storageConsistent st \<Longrightarrow> storageConsistent (AList.delete k st)"
  unfolding storageConsistent_def by (auto simp add: AList.delete_eq list_all_iff)

lemma collectLogs_storage: "storage (snd (collectLogs e keep ks s)) = storage s"
  by (induction ks arbitrary: s)
     (auto simp add: AsyncStorage_getItem_def split: option.splits)

lemma collectLogs_sound:
  "l \<in> set (fst (collectLogs e keep ks s)) \<Longrightarrow>
   \<exists>k \<in> set ks. map_of (storage s) k = Some (LogJson l)"
proof (induction ks arbitrary: s)
  case Nil
  then show ?case by simp
next
  case (Cons k ks)
  let ?s1 = "s\<lparr>storageCalls := storageCalls s @ [GetItem k]\<rparr>"
  have st: "storage ?s1 = storage s" by simp
  show ?case
  proof (cases "l \<in> set (fst (collectLogs e keep ks ?s1))")
    case True
    from Cons.IH[OF True] st show ?thesis by auto
  next
    case False
    with Cons.prems have "map_of (storage s) k = Some (LogJson l)"
      by (auto simp add: AsyncStorage_getItem_def split: option.splits if_splits elim: parseLog.elims)
    then show ?thesis by simp
  qed
qed

lemma historicalKeys_other_day:
  "k \<in> set (historicalKeys e ks) \<Longrightarrow> \<exists>d. k = NutritionLog d \<and> d \<noteq> today e"
  by (cases k) (auto simp add: historicalKeys_def getTodayString_def)

lemma collected_not_today:
  assumes "storageConsistent (storage s)"
      and "l \<in> set (fst (collectLogs e keep (historicalKeys e ks) s))"
  shows "date l \<noteq> today e"
proof -
  from collectLogs_sound[OF assms(2)] obtain k where
    k: "k \<in> set (historicalKeys e ks)" "map_of (storage s) k = Some (LogJson l)" by blast
  from historicalKeys_other_day[OF k(1)] obtain d where d: "k = NutritionLog d" "d \<noteq> today e"
    by blast
  from consistent_lookup[OF assms(1)] k(2) d show ?thesis by auto
qed

lemma load_storage: "storage (snd (loadTodaysLog e s)) = storage s"
  by (simp add: loadTodaysLog_def getTodayString_def Let_def readStoredLog_def
      AsyncStorage_getItem_def split: option.splits)

lemma load_date:
  "storageConsistent (storage s) \<Longrightarrow> date (fst (loadTodaysLog e s)) = today e"
  by (auto simp add: loadTodaysLog_def getTodayString_def Let_def readStoredLog_def
      AsyncStorage_getItem_def emptyLog_def
      split: option.splits if_splits elim!: parseLog.elims dest: consistent_lookup)

lemma consistent_addOrUpdate:
  "storageConsistent (storage s) \<Longrightarrow>
   storageConsistent (storage (snd (addOrUpdateFastAccessItem e t s)))"
  by (simp add: addOrUpdateFastAccessItem_def loadFastAccessItems_def Let_def
      AsyncStorage_setItem_def AsyncStorage_getItem_def consistent_update_fast
      split: option.splits)

lemma consistent_pushAndSave:
  "storageConsistent (storage (snd ls)) \<Longrightarrow> date (fst ls) = currentDate (snd ls) \<Longrightarrow>
   storageConsistent (storage (snd (pushAndSave e t ls)))"
  by (simp add: pushAndSave_def Let_def AsyncStorage_setItem_def consistent_addOrUpdate
      consistent_update_log)

lemma consistent_save:
  "storageConsistent (storage s) \<Longrightarrow> storageConsistent (storage (saveCurrentDayToHistory e d s))"
  by (simp add: saveCurrentDayToHistory_def AsyncStorage_setItem_def consistent_update_log
      split: option.splits)

lemma operations_keep_consistency:
  assumes "storageConsistent (storage s)"
  shows "storageConsistent (storage (snd (loadTodaysLog e s)))"
    and "storageConsistent (storage (snd (addMenuItem e menuItem rest s)))"
    and "storageConsistent (storage (snd (addCustomMeal e customMeal s)))"
    and "storageConsistent (storage (snd (removeItem e itemId s)))"
    and "storageConsistent (storage (snd (clearTodaysLog e s)))"
    and "storageConsistent (storage (snd (checkForDateChange e s)))"
    and "storageConsistent (storage (snd (addOrUpdateFastAccessItem e trackedItem s)))"
    and "storageConsistent (storage (snd (removeFastAccessItem e itemId s)))"
proof -
  show "storageConsistent (storage (snd (loadTodaysLog e s)))"
    using assms by (simp add: load_storage)
  show "storageConsistent (storage (snd (addMenuItem e menuItem rest s)))"
    using assms by (simp add: addMenuItem_def consistent_pushAndSave load_storage load_date load_currentDate)
  show "storageConsistent (storage (snd (addCustomMeal e customMeal s)))"
    using assms by (simp add: addCustomMeal_def consistent_pushAndSave load_storage load_date load_currentDate)
  show "storageConsistent (storage (snd (removeItem e itemId s)))"
    using assms
    by (simp add: removeItem_def Let_def AsyncStorage_setItem_def load_storage load_date
        load_currentDate consistent_update_log)
  show "storageConsistent (storage (snd (clearTodaysLog e s)))"
    using assms by (simp add: clearTodaysLog_def Let_def AsyncStorage_removeItem_def consistent_delete)
  show "storageConsistent (storage (snd (checkForDateChange e s)))"
    using assms by (simp add: checkForDateChange_def Let_def consistent_save)
  show "storageConsistent (storage (snd (addOrUpdateFastAccessItem e trackedItem s)))"
    using assms by (rule consistent_addOrUpdate)
  show "storageConsistent (storage (snd (removeFastAccessItem e itemId s)))"
    using assms
    by (simp add: removeFastAccessItem_def Let_def AsyncStorage_setItem_def consistent_update_fast)
qed

text \<open>
  C5, as amended. When every stored log record carries the day of its key,
  \<open>getAllHistoricalLogs\<close> and \<open>getMostRecentLogs\<close> return no log whose date is the day
  read from the clock in that call. The day excluded is \<open>getTodayString()\<close>, not the
  field \<open>currentDate\<close>; the two agree once a rollover check or \<open>loadTodaysLog\<close> has run on
  that day. The hypothesis is kept by every operation (\<open>operations_keep_consistency\<close>).
\<close>

theorem history_excludes_today:
  assumes "storageConsistent (storage s)"
  shows "(\<forall>l \<in> set (fst (getAllHistoricalLogs e s)). date l \<noteq> today e)
       \<and> (\<forall>l \<in> set (fst (getMostRecentLogs e n s)). date l \<noteq> today e)"
proof -
  let ?s1 = "s\<lparr>storageCalls := storageCalls s @ [GetAllKeys]\<rparr>"
  have c: "storageConsistent (storage ?s1)" using assms by simp
  have all: "fst (getAllHistoricalLogs e s) =
      (if fails e GetAllKeys then []
       else sort_by logOrder
              (fst (collectLogs e (\<lambda>l. True) (historicalKeys e (map fst (storage s))) ?s1)))"
    by (simp add: getAllHistoricalLogs_def AsyncStorage_getAllKeys_def case_prod_beta)
  have recent: "fst (getMostRecentLogs e n s) =
      (if fails e GetAllKeys then []
       else slice0 n (sort_by logOrder
              (fst (collectLogs e (\<lambda>l. length (items l) > 0)
                      (historicalKeys e (map fst (storage s))) ?s1))))"
    by (simp add: getMostRecentLogs_def AsyncStorage_getAllKeys_def case_prod_beta)
  have a: "\<forall>l \<in> set (fst (getAllHistoricalLogs e s)). date l \<noteq> today e"
    using collected_not_today[OF c] by (auto simp add: all set_sort_by)
  have b: "\<forall>l \<in> set (fst (getMostRecentLogs e n s)). date l \<noteq> today e"
  proof
    fix l assume l: "l \<in> set (fst (getMostRecentLogs e n s))"
    let ?logs = "fst (collectLogs e (\<lambda>l. length (items l) > 0)
                      (historicalKeys e (map fst (storage s))) ?s1)"
    from l have "l \<in> set (slice0 n (sort_by logOrder ?logs))"
      by (simp add: recent split: if_splits)
    then have "l \<in> set ?logs"
      using set_slice0[of n "sort_by logOrder ?logs"] by (auto simp add: set_sort_by)
    then show "date l \<noteq> today e" by (rule collected_not_today[OF c])
  qed
  show ?thesis using a b by simp
qed

text \<open>The call that leads a new service on an empty store to \<open>oneMealDemo\<close>.\<close>

lemma oneMealDemo_reached:
  "snd (addCustomMeal (demoEnv (2024, 3, 10) ''a'' 100) (demoMeal ''Soup'' 200) (demoApp (2024, 3, 10)))
     = oneMealDemo"
  by (simp add: run_defs oneMealDemo_def demoEntry_def demoItem_def oneItemLog_def)

lemmas history_defs = getAllHistoricalLogs_def getMostRecentLogs_def AsyncStorage_getAllKeys_def
  AsyncStorage_getItem_def historicalKeys_def getTodayString_def sort_by_def slice0_def
  logOrder_def demoEnv_def

text \<open>
  C5 as stated fails on \<open>oneMealDemo\<close> when the clock has passed midnight and no check
  has run yet: the log of 10 March is returned although \<open>currentDate\<close> is still 10 March.
\<close>

theorem history_excludes_today_counterexample:
  "currentDate oneMealDemo = (2024, 3, 10)
   \<and> fst (getAllHistoricalLogs (demoEnv (2024, 3, 11) [] 0) oneMealDemo)
       = [oneItemLog (2024, 3, 10) (demoItem ''a'' ''Soup'' ''Custom Meal'' 200 100)]
   \<and> fst (getMostRecentLogs (demoEnv (2024, 3, 11) [] 0) 3 oneMealDemo)
       = [oneItemLog (2024, 3, 10) (demoItem ''a'' ''Soup'' ''Custom Meal'' 200 100)]
   \<and> date (oneItemLog (2024, 3, 10) (demoItem ''a'' ''Soup'' ''Custom Meal'' 200 100))
       = currentDate oneMealDemo"
  by (simp add: oneMealDemo_def history_defs oneItemLog_def)

theorem history_excludes_today_witness:
  "storageConsistent (storage returnDemo)
   \<and> fst (getAllHistoricalLogs (demoEnv (2024, 3, 10) [] 0) returnDemo)
       = [oneItemLog (2024, 3, 12) (demoItem ''x'' ''Rice'' ''Custom Meal'' 300 100)]
   \<and> fst (getMostRecentLogs (demoEnv (2024, 3, 10) [] 0) 3 returnDemo)
       = [oneItemLog (2024, 3, 12) (demoItem ''x'' ''Rice'' ''Custom Meal'' 300 100)]
   \<and> date (oneItemLog (2024, 3, 12) (demoItem ''x'' ''Rice'' ''Custom Meal'' 300 100))
       \<noteq> today (demoEnv (2024, 3, 10) [] 0)"
proof -
  have h: "storageConsistent (storage returnDemo)"
    by (simp add: returnDemo_def storageConsistent_def oneItemLog_def)
  have v: "fst (getAllHistoricalLogs (demoEnv (2024, 3, 10) [] 0) returnDemo)
       = [oneItemLog (2024, 3, 12) (demoItem ''x'' ''Rice'' ''Custom Meal'' 300 100)]"
    "fst (getMostRecentLogs (demoEnv (2024, 3, 10) [] 0) 3 returnDemo)
       = [oneItemLog (2024, 3, 12) (demoItem ''x'' ''Rice'' ''Custom Meal'' 300 100)]"
    by (simp_all add: returnDemo_def history_defs oneItemLog_def)
  show ?thesis
    using history_excludes_today[OF h, of "demoEnv (2024, 3, 10) [] 0" 3] h v by simp
qed

subsection \<open>Order and capacity of the quick-access list\<close>

lemma addOrUpdate_list:
  "fastAccessItems (snd (addOrUpdateFastAccessItem e it s))
     = recordUse (now_lastUsed e) it (loadedItems e s)"
  by (simp add: addOrUpdateFastAccessItem_def loadedItems_def Let_def AsyncStorage_setItem_def)

lemma fastAccessOrder_iff:
  "fastAccessOrder a b \<longleftrightarrow>
     lastUsed b < lastUsed a \<or> (lastUsed b = lastUsed a \<and> useCount b \<le> useCount a)"
  by (auto simp add: fastAccessOrder_def)

lemma fastAccessOrder_total: "fastAccessOrder a b \<or> fastAccessOrder b a"
  by (auto simp add: fastAccessOrder_iff)

lemma fastAccessOrder_trans:
  "fastAccessOrder a b \<Longrightarrow> fastAccessOrder b c \<Longrightarrow> fastAccessOrder a c"
  by (auto simp add: fastAccessOrder_iff)

lemma set_insort_by: "set (insort_by le x xs) = insert x (set xs)"
  by (induction xs) auto

lemma sorted_insort_by:
  assumes total: "\<And>a b. le a b \<or> le b a"
      and trans: "\<And>a b c. le a b \<Longrightarrow> le b c \<Longrightarrow> le a c"
  shows "sorted_wrt le xs \<Longrightarrow> sorted_wrt le (insort_by le x xs)"
proof (induction xs)
  case Nil
  then show ?case by simp
next
  case (Cons y ys)
  show ?case
  proof (cases "le x y")
    case True
    with Cons.prems trans show ?thesis by auto
  next
    case False
    with total have "le y x" by blast
    with Cons False show ?thesis by (auto simp add: set_insort_by)
  qed
qed

lemma sorted_sort_by:
  assumes "\<And>a b. le a b \<or> le b a" and "\<And>a b c. le a b \<Longrightarrow> le b c \<Longrightarrow> le a c"
  shows "sorted_wrt le (sort_by le xs)"
  unfolding sort_by_def
  by (induction xs) (simp_all add: sorted_insort_by[OF assms])

lemma sorted_fastAccess: "sorted_wrt fastAccessOrder (sort_by fastAccessOrder xs)"
  by (rule sorted_sort_by) (use fastAccessOrder_total fastAccessOrder_trans in blast)+

lemma sort_by_sorted: "sorted_wrt le xs \<Longrightarrow> sort_by le xs = xs"
  unfolding sort_by_def
proof (induction xs)
  case Nil
  then show ?case by simp
next
  case (Cons x xs)
  then show ?case by (cases xs) auto
qed

lemma sorted_wrt_take: "sorted_wrt P xs \<Longrightarrow> sorted_wrt P (take n xs)"
  by (metis append_take_drop_id sorted_wrt_append)

lemma length_recordUse:
  "length (recordUse t it xs) = min maxItems (length (upsertFastAccessItem t it xs))"
  by (simp add: recordUse_def Let_def length_sort_by)

lemma length_upsert_match:
  "findIndex P xs = Some i \<Longrightarrow> i < length xs \<and> P (xs ! i)"
  by (induction xs arbitrary: i) (auto split: if_splits)

lemma length_upsert:
  "length (upsertFastAccessItem t it xs) =
     (case findIndex (\<lambda>item. name item = name it \<and> restaurant item = restaurant it) xs of
        Some i \<Rightarrow> length xs | None \<Rightarrow> Suc (length xs))"
  by (simp add: upsertFastAccessItem_def split: option.splits)

lemma agree_with_spec:
  assumes srt: "sorted_wrt fastAccessOrder xs"
      and len: "length xs \<le> maxItems"
      and later: "\<forall>x \<in> set xs. lastUsed x < t"
  shows "recordUse t it xs = recordUseSpec t it xs"
proof (cases "findIndex (\<lambda>item. name item = name it \<and> restaurant item = restaurant it) xs")
  case (Some i)
  then have "length (upsertFastAccessItem t it xs) \<le> maxItems"
    using len by (simp add: length_upsert)
  then show ?thesis by (simp add: recordUse_def recordUseSpec_def Let_def)
next
  case None
  let ?ys = "upsertFastAccessItem t it xs"
  from None obtain new where ys: "?ys = new # xs" and new: "lastUsed new = t"
    by (simp add: upsertFastAccessItem_def)
  have "sorted_wrt fastAccessOrder ?ys"
    using srt later new by (auto simp add: ys fastAccessOrder_iff)
  then have "sort_by fastAccessOrder ?ys = ?ys"
    and "sort_by fastAccessOrder (take maxItems ?ys) = take maxItems ?ys"
    by (simp_all add: sort_by_sorted sorted_wrt_take)
  then show ?thesis by (simp add: recordUse_def recordUseSpec_def Let_def)
qed

text \<open>
  C4, as amended. When the list is over capacity after the add or update,
  \<open>addOrUpdateFastAccessItem\<close> keeps the first ten entries of the list as it then stands
  (a new entry at the front, then the entries in their previous order) and sorts those
  ten: what is evicted is the tail of the list before the sort. This is the result of
  sorting first and cutting second when the list held at most ten entries in sorted order
  and the time of the call is later than every entry's \<open>lastUsed\<close>.
\<close>

theorem truncate_then_sort:
  assumes "length (upsertFastAccessItem (now_lastUsed e) it (loadedItems e s)) > maxItems"
  shows "mset (fastAccessItems (snd (addOrUpdateFastAccessItem e it s)))
           = mset (take maxItems (upsertFastAccessItem (now_lastUsed e) it (loadedItems e s)))
       \<and> sorted_wrt fastAccessOrder (fastAccessItems (snd (addOrUpdateFastAccessItem e it s)))
       \<and> length (fastAccessItems (snd (addOrUpdateFastAccessItem e it s))) = maxItems
       \<and> (sorted_wrt fastAccessOrder (loadedItems e s) \<and> length (loadedItems e s) \<le> maxItems
            \<and> (\<forall>x \<in> set (loadedItems e s). lastUsed x < now_lastUsed e) \<longrightarrow>
          fastAccessItems (snd (addOrUpdateFastAccessItem e it s))
            = recordUseSpec (now_lastUsed e) it (loadedItems e s))"
  using assms agree_with_spec[of "loadedItems e s" "now_lastUsed e" it]
  by (simp add: addOrUpdate_list recordUse_def Let_def mset_sort_by sorted_fastAccess length_sort_by)

lemma demoEntry_fields:
  "item_id (demoEntry i nm r c t u) = i" "name (demoEntry i nm r c t u) = nm"
  "restaurant (demoEntry i nm r c t u) = r" "lastUsed (demoEntry i nm r c t u) = t"
  "useCount (demoEntry i nm r c t u) = u"
  by (simp_all add: demoEntry_def)

lemma demoItem_fields:
  "item_id (demoItem i nm r c t) = i" "name (demoItem i nm r c t) = nm"
  "restaurant (demoItem i nm r c t) = r"
  by (simp_all add: demoItem_def)

lemma fullDemo_loaded: "loadedItems e fullDemo = tenEntries"
  by (simp add: loadedItems_def fullDemo_def tenEntries_def)

lemma tenEntries_sorted: "sorted_wrt fastAccessOrder tenEntries"
  by (simp add: tenEntries_def fastAccessOrder_iff demoEntry_fields)

lemma upsert_new_on_ten:
  "upsertFastAccessItem t (demoItem ''n'' ''New'' ''Cafe'' 120 50) tenEntries
     = demoEntry ''n'' ''New'' ''Cafe'' 120 t 1 # tenEntries"
  by (simp add: upsertFastAccessItem_def tenEntries_def demoEntry_fields demoItem_fields)
     (simp add: demoEntry_def demoItem_def)

lemmas sort_eval = sort_by_def fastAccessOrder_iff demoEntry_fields maxItems_def

text \<open>
  C4 as stated fails on \<open>fullDemo\<close> when the clock has been set back to time 50: the
  entry last used at time 100, the tail of the list before the sort, is evicted and the
  new entry stays, whereas sorting before cutting evicts the new entry.
\<close>

theorem truncate_then_sort_counterexample:
  "maxItems < length (upsertFastAccessItem (now_lastUsed (demoEnv (2024, 3, 10) [] 50))
       (demoItem ''n'' ''New'' ''Cafe'' 120 50) (loadedItems (demoEnv (2024, 3, 10) [] 50) fullDemo))
   \<and> map item_id (fastAccessItems (snd (addOrUpdateFastAccessItem (demoEnv (2024, 3, 10) [] 50)
        (demoItem ''n'' ''New'' ''Cafe'' 120 50) fullDemo)))
       = [''e9'', ''e8'', ''e7'', ''e6'', ''e5'', ''e4'', ''e3'', ''e2'', ''e1'', ''n'']
   \<and> map item_id (recordUseSpec (now_lastUsed (demoEnv (2024, 3, 10) [] 50))
        (demoItem ''n'' ''New'' ''Cafe'' 120 50) (loadedItems (demoEnv (2024, 3, 10) [] 50) fullDemo))
       = [''e9'', ''e8'', ''e7'', ''e6'', ''e5'', ''e4'', ''e3'', ''e2'', ''e1'', ''e0'']"
proof -
  have t: "now_lastUsed (demoEnv (2024, 3, 10) [] 50) = 50" by (simp add: demoEnv_def)
  have a: "map item_id (recordUse 50 (demoItem ''n'' ''New'' ''Cafe'' 120 50) tenEntries)
       = [''e9'', ''e8'', ''e7'', ''e6'', ''e5'', ''e4'', ''e3'', ''e2'', ''e1'', ''n'']"
    unfolding recordUse_def upsert_new_on_ten
    by (simp add: tenEntries_def sort_eval)
  have b: "map item_id (recordUseSpec 50 (demoItem ''n'' ''New'' ''Cafe'' 120 50) tenEntries)
       = [''e9'', ''e8'', ''e7'', ''e6'', ''e5'', ''e4'', ''e3'', ''e2'', ''e1'', ''e0'']"
    unfolding recordUseSpec_def upsert_new_on_ten
    by (simp add: tenEntries_def sort_eval)
  show ?thesis
    using a b by (simp add: addOrUpdate_list fullDemo_loaded t upsert_new_on_ten)
       (simp add: tenEntries_def maxItems_def)
qed

theorem truncate_then_sort_witness:
  "maxItems < length (upsertFastAccessItem (now_lastUsed (demoEnv (2024, 3, 10) [] 200))
       (demoItem ''n'' ''New'' ''Cafe'' 120 50) (loadedItems (demoEnv (2024, 3, 10) [] 200) fullDemo))
   \<and> sorted_wrt fastAccessOrder (loadedItems (demoEnv (2024, 3, 10) [] 200) fullDemo)
   \<and> length (loadedItems (demoEnv (2024, 3, 10) [] 200) fullDemo) \<le> maxItems
   \<and> list_all (\<lambda>x. lastUsed x < now_lastUsed (demoEnv (2024, 3, 10) [] 200))
        (loadedItems (demoEnv (2024, 3, 10) [] 200) fullDemo)
   \<and> fastAccessItems (snd (addOrUpdateFastAccessItem (demoEnv (2024, 3, 10) [] 200)
        (demoItem ''n'' ''New'' ''Cafe'' 120 50) fullDemo))
       = recordUseSpec (now_lastUsed (demoEnv (2024, 3, 10) [] 200))
           (demoItem ''n'' ''New'' ''Cafe'' 120 50) (loadedItems (demoEnv (2024, 3, 10) [] 200) fullDemo)
   \<and> mset (fastAccessItems (snd (addOrUpdateFastAccessItem (demoEnv (2024, 3, 10) [] 200)
        (demoItem ''n'' ''New'' ''Cafe'' 120 50) fullDemo)))
       = mset (take maxItems (demoEntry ''n'' ''New'' ''Cafe'' 120 200 1 # tenEntries))
   \<and> length (fastAccessItems (snd (addOrUpdateFastAccessItem (demoEnv (2024, 3, 10) [] 200)
        (demoItem ''n'' ''New'' ''Cafe'' 120 50) fullDemo))) = maxItems"
proof -
  let ?e = "demoEnv (2024, 3, 10) [] 200"
  let ?it = "demoItem ''n'' ''New'' ''Cafe'' 120 50"
  have t: "now_lastUsed ?e = 200" by (simp add: demoEnv_def)
  have h: "maxItems < length (upsertFastAccessItem (now_lastUsed ?e) ?it (loadedItems ?e fullDemo))"
    by (simp add: t fullDemo_loaded upsert_new_on_ten) (simp add: tenEntries_def maxItems_def)
  have g: "length (loadedItems ?e fullDemo) \<le> maxItems"
    "list_all (\<lambda>x. lastUsed x < now_lastUsed ?e) (loadedItems ?e fullDemo)"
    by (simp_all add: t fullDemo_loaded tenEntries_def maxItems_def demoEntry_fields)
  have g': "\<forall>x \<in> set (loadedItems ?e fullDemo). lastUsed x < now_lastUsed ?e"
    using g(2) by (simp add: list_all_iff)
  have s: "sorted_wrt fastAccessOrder (loadedItems ?e fullDemo)"
    by (simp add: fullDemo_loaded tenEntries_sorted)
  note th = truncate_then_sort[OF h]
  have c1: "mset (fastAccessItems (snd (addOrUpdateFastAccessItem ?e ?it fullDemo)))
       = mset (take maxItems (demoEntry ''n'' ''New'' ''Cafe'' 120 200 1 # tenEntries))"
    using th by (simp add: t fullDemo_loaded upsert_new_on_ten)
  have c2: "length (fastAccessItems (snd (addOrUpdateFastAccessItem ?e ?it fullDemo))) = maxItems"
    using th by blast
  have c3: "fastAccessItems (snd (addOrUpdateFastAccessItem ?e ?it fullDemo))
       = recordUseSpec (now_lastUsed ?e) ?it (loadedItems ?e fullDemo)"
    using th g(1) g' s by blast
  show ?thesis
    using h s g c1 c2 c3 by blast
qed

subsection \<open>Re-use of a quick-access entry\<close>

lemma upsert_match:
  "findIndex (\<lambda>item. name item = name it \<and> restaurant item = restaurant it) xs = Some i \<Longrightarrow>
   upsertFastAccessItem t it xs = take i xs @ refreshed t it (xs ! i) # drop (Suc i) xs"
  using length_upsert_match[of _ xs i]
  by (simp add: upsertFastAccessItem_def refreshed_def upd_conv_take_nth_drop)

lemma foldr_insort_past:
  "\<forall>a \<in> set as. \<not> le a u \<Longrightarrow>
   foldr (insort_by le) as (u # bs) = u # foldr (insort_by le) as bs"
  by (induction as) auto

lemma foldr_insort_sorted:
  "sorted_wrt le (as @ bs) \<Longrightarrow> foldr (insort_by le) as bs = as @ bs"
  using sort_by_sorted[of le "as @ bs"] sort_by_sorted[of le bs]
  by (simp add: sort_by_def sorted_wrt_append)

lemma readd_front:
  assumes idx: "findIndex (\<lambda>item. name item = name it \<and> restaurant item = restaurant it) xs = Some i"
      and srt: "sorted_wrt fastAccessOrder xs"
      and len: "length xs \<le> maxItems"
      and later: "\<forall>j < length xs. j \<noteq> i \<longrightarrow> lastUsed (xs ! j) < t"
  shows "recordUse t it xs = refreshed t it (xs ! i) # take i xs @ drop (Suc i) xs"
proof -
  let ?u = "refreshed t it (xs ! i)"
  let ?as = "take i xs" and ?bs = "drop (Suc i) xs"
  from length_upsert_match[OF idx] have i: "i < length xs" by simp
  have split: "sorted_wrt fastAccessOrder (?as @ xs ! i # ?bs)"
    by (simp add: id_take_nth_drop[OF i, symmetric] srt)
  have u: "lastUsed ?u = t" by (simp add: refreshed_def)
  have as: "\<forall>a \<in> set ?as. lastUsed a < t"
  proof
    fix a assume "a \<in> set ?as"
    then obtain j where "j < i" "a = xs ! j" using i
      by (auto simp add: in_set_conv_nth)
    with later i show "lastUsed a < t" by simp
  qed
  have bs: "\<forall>b \<in> set ?bs. lastUsed b < t"
  proof
    fix b assume "b \<in> set ?bs"
    then obtain j where "j < length xs - Suc i" "b = xs ! (Suc i + j)" using i
      by (auto simp add: in_set_conv_nth)
    with later i show "lastUsed b < t" by simp
  qed
  have rest: "sorted_wrt fastAccessOrder (?as @ ?bs)"
    using split by (auto simp add: sorted_wrt_append)
  have "sorted_wrt fastAccessOrder (?u # ?bs)"
    using rest bs u by (auto simp add: sorted_wrt_append fastAccessOrder_iff)
  then have ubs: "foldr (insort_by fastAccessOrder) (?u # ?bs) [] = ?u # ?bs"
    using sort_by_sorted[of fastAccessOrder "?u # ?bs"] by (simp add: sort_by_def)
  have past: "\<forall>a \<in> set ?as. \<not> fastAccessOrder a ?u"
    using as u by (auto simp add: fastAccessOrder_iff)
  have "sort_by fastAccessOrder (?as @ ?u # ?bs)
          = foldr (insort_by fastAccessOrder) ?as (foldr (insort_by fastAccessOrder) (?u # ?bs) [])"
    by (simp add: sort_by_def)
  also have "\<dots> = foldr (insort_by fastAccessOrder) ?as (?u # ?bs)"
    by (simp only: ubs)
  also have "\<dots> = ?u # foldr (insort_by fastAccessOrder) ?as ?bs"
    using past by (simp add: foldr_insort_past)
  also have "\<dots> = ?u # ?as @ ?bs"
    by (simp add: foldr_insort_sorted[OF rest])
  finally have sorted: "sort_by fastAccessOrder (?as @ ?u # ?bs) = ?u # ?as @ ?bs" .
  have "length (upsertFastAccessItem t it xs) \<le> maxItems"
    using len idx by (simp add: length_upsert)
  then show ?thesis
    using sorted by (simp add: recordUse_def Let_def upsert_match[OF idx])
qed

lemma keys_upsert:
  "entryKey ` set (upsertFastAccessItem t it xs) = insert (entryKey it) (entryKey ` set xs)"
proof (cases "findIndex (\<lambda>item. name item = name it \<and> restaurant item = restaurant it) xs")
  case None
  then show ?thesis by (simp add: upsertFastAccessItem_def entryKey_def)
next
  case (Some i)
  from length_upsert_match[OF Some]
  have i: "i < length xs" and k: "entryKey (xs ! i) = entryKey it"
    by (simp_all add: entryKey_def)
  have "map entryKey (upsertFastAccessItem t it xs) = (map entryKey xs)[i := entryKey it]"
    using length_upsert_match[OF Some]
    by (simp add: upsertFastAccessItem_def Some map_update entryKey_def)
  also have "\<dots> = map entryKey xs"
    using i k by (simp add: list_update_same_conv)
  finally have "set (map entryKey (upsertFastAccessItem t it xs)) = set (map entryKey xs)"
    by simp
  moreover have "entryKey it \<in> entryKey ` set xs"
    using i k by (metis imageI nth_mem)
  ultimately show ?thesis by auto
qed

lemma loaded_keys:
  "entryKey ` set (fastAccessItems s) \<subseteq> entryKey ` set (loadedItems e s)"
  by (simp add: loadedItems_def)

lemma loaded_length: "length (fastAccessItems s) \<le> length (loadedItems e s)"
  by (simp add: loadedItems_def)

lemma upsert_length_ge: "length xs \<le> length (upsertFastAccessItem t it xs)"
  by (simp add: length_upsert split: option.splits)

lemma step_length_le:
  "length (fastAccessItems (snd (addOrUpdateFastAccessItem e it s))) \<le> maxItems"
  by (simp add: addOrUpdate_list length_recordUse)

lemma step_length_full:
  "maxItems \<le> length (fastAccessItems s) \<Longrightarrow>
   length (fastAccessItems (snd (addOrUpdateFastAccessItem e it s))) = maxItems"
  using loaded_length[of s e] upsert_length_ge[of "loadedItems e s" "now_lastUsed e" it]
  by (simp add: addOrUpdate_list length_recordUse)

lemma step_keys:
  assumes "length (fastAccessItems (snd (addOrUpdateFastAccessItem e it s))) < maxItems"
  shows "insert (entryKey it) (entryKey ` set (fastAccessItems s))
           \<subseteq> entryKey ` set (fastAccessItems (snd (addOrUpdateFastAccessItem e it s)))"
proof -
  let ?ys = "upsertFastAccessItem (now_lastUsed e) it (loadedItems e s)"
  from assms have "\<not> length ?ys > maxItems"
    by (simp add: addOrUpdate_list length_recordUse)
  then have "set (fastAccessItems (snd (addOrUpdateFastAccessItem e it s))) = set ?ys"
    by (simp add: addOrUpdate_list recordUse_def Let_def set_sort_by)
  then show ?thesis
    using loaded_keys[of s e] by (auto simp add: keys_upsert)
qed

lemma recordUses_snoc:
  "recordUses (us @ [u]) s = snd (addOrUpdateFastAccessItem (fst u) (snd u) (recordUses us s))"
  by (simp add: recordUses_def)

lemma uses_keys:
  "length (fastAccessItems (recordUses us s)) < maxItems \<Longrightarrow>
   entryKey ` snd ` set us \<subseteq> entryKey ` set (fastAccessItems (recordUses us s))"
proof (induction us rule: rev_induct)
  case Nil
  then show ?case by simp
next
  case (snoc u us)
  let ?mid = "recordUses us s"
  from snoc.prems have fin: "length (fastAccessItems (snd (addOrUpdateFastAccessItem (fst u) (snd u) ?mid))) < maxItems"
    by (simp add: recordUses_snoc)
  have "length (fastAccessItems ?mid) < maxItems"
  proof (rule ccontr)
    assume "\<not> length (fastAccessItems ?mid) < maxItems"
    then have "maxItems \<le> length (fastAccessItems ?mid)" by simp
    from step_length_full[OF this, of "fst u" "snd u"] fin show False by simp
  qed
  from snoc.IH[OF this] step_keys[OF fin] show ?case
    by (auto simp add: recordUses_snoc)
qed

lemma eleven_distinct:
  assumes d: "distinct (map (\<lambda>u. entryKey (snd u)) us)" and n: "length us = 11"
  shows "length (fastAccessItems (recordUses us s)) = maxItems"
proof -
  from n obtain u us' where us: "us = us' @ [u]" by (cases us rule: rev_cases) auto
  have le: "length (fastAccessItems (recordUses us s)) \<le> maxItems"
    by (simp add: us recordUses_snoc step_length_le)
  have "\<not> length (fastAccessItems (recordUses us s)) < maxItems"
  proof
    assume lt: "length (fastAccessItems (recordUses us s)) < maxItems"
    have "card (entryKey ` snd ` set us) = 11"
      using d n distinct_card[of "map (\<lambda>u. entryKey (snd u)) us"] by (simp add: image_image)
    moreover have "card (entryKey ` snd ` set us) \<le> card (entryKey ` set (fastAccessItems (recordUses us s)))"
      by (rule card_mono) (use uses_keys[OF lt] in simp_all)
    moreover have "card (entryKey ` set (fastAccessItems (recordUses us s))) \<le> length (fastAccessItems (recordUses us s))"
      by (rule le_trans[OF card_image_le[OF finite_set] card_length])
    ultimately show False using lt by (simp add: maxItems_def)
  qed
  with le show ?thesis by simp
qed

lemma uses_sorted:
  "us \<noteq> [] \<Longrightarrow> sorted_wrt fastAccessOrder (fastAccessItems (recordUses us s))"
  by (cases us rule: rev_cases)
     (simp_all add: recordUses_snoc addOrUpdate_list recordUse_def Let_def sorted_fastAccess)

lemma sorted_by_lastUsed:
  "sorted_wrt fastAccessOrder xs \<Longrightarrow> sorted_wrt (\<lambda>a b. lastUsed b \<le> lastUsed a) xs"
  by (rule sorted_wrt_mono_rel[of xs fastAccessOrder]) (auto simp add: fastAccessOrder_iff)

text \<open>
  The service keeps the list within its capacity: a new service is within it, and adding
  or re-using, removing and loading keep it so; within it, the list that
  \<open>addOrUpdateFastAccessItem\<close> works on has at most ten entries.
\<close>

lemma upsert_update:
  "findIndex (\<lambda>item. name item = name it \<and> restaurant item = restaurant it) xs = Some i \<Longrightarrow>
   upsertFastAccessItem t it xs = xs[i := refreshed t it (xs ! i)]"
  by (simp add: upsertFastAccessItem_def refreshed_def)

lemma recordUse_match:
  assumes idx: "findIndex (\<lambda>item. name item = name it \<and> restaurant item = restaurant it) xs = Some i"
      and len: "length xs \<le> maxItems"
  shows "recordUse t it xs = sort_by fastAccessOrder (xs[i := refreshed t it (xs ! i)])"
  using len by (simp add: recordUse_def Let_def upsert_update[OF idx])

lemma keys_update:
  assumes idx: "findIndex (\<lambda>item. name item = name it \<and> restaurant item = restaurant it) xs = Some i"
  shows "map entryKey (xs[i := refreshed t it (xs ! i)]) = map entryKey xs"
proof -
  from length_upsert_match[OF idx] have i: "i < length xs" by simp
  have k: "entryKey (refreshed t it (xs ! i)) = entryKey (xs ! i)"
    by (simp add: entryKey_def refreshed_def)
  have "map entryKey (xs[i := refreshed t it (xs ! i)]) = (map entryKey xs)[i := entryKey (xs ! i)]"
    by (simp add: map_update k)
  also have "\<dots> = map entryKey xs"
    using i by (simp add: list_update_same_conv)
  finally show ?thesis .
qed

lemma sorted_hd_latest:
  assumes srt: "sorted_wrt fastAccessOrder ys"
      and u: "u \<in> set ys"
      and rest: "\<forall>y \<in> set ys. y \<noteq> u \<longrightarrow> lastUsed y < lastUsed u"
  shows "hd ys = u"
proof (cases ys)
  case Nil
  with u show ?thesis by simp
next
  case (Cons h tl)
  show ?thesis
  proof (rule ccontr)
    assume "hd ys \<noteq> u"
    then have h: "h \<noteq> u" by (simp add: Cons)
    with u have "u \<in> set tl" by (simp add: Cons)
    with srt have "fastAccessOrder h u" by (simp add: Cons)
    moreover from rest h have "lastUsed h < lastUsed u" by (simp add: Cons)
    ultimately show False by (simp add: fastAccessOrder_iff split: if_splits)
  qed
qed

lemma recordUse_hd:
  assumes idx: "findIndex (\<lambda>item. name item = name it \<and> restaurant item = restaurant it) xs = Some i"
      and len: "length xs \<le> maxItems"
      and later: "\<forall>j < length xs. j \<noteq> i \<longrightarrow> lastUsed (xs ! j) < t"
  shows "hd (recordUse t it xs) = refreshed t it (xs ! i)"
proof -
  let ?u = "refreshed t it (xs ! i)"
  from length_upsert_match[OF idx] have i: "i < length xs" by simp
  have r: "recordUse t it xs = sort_by fastAccessOrder (xs[i := ?u])"
    by (rule recordUse_match[OF idx len])
  have u: "lastUsed ?u = t" by (simp add: refreshed_def)
  have mem: "?u \<in> set (recordUse t it xs)"
    using i by (simp add: r set_sort_by set_update_memI)
  have rest: "\<forall>y \<in> set (recordUse t it xs). y \<noteq> ?u \<longrightarrow> lastUsed y < lastUsed ?u"
  proof (intro ballI impI)
    fix y assume y: "y \<in> set (recordUse t it xs)" and ne: "y \<noteq> ?u"
    from y obtain j where j: "j < length xs" "y = xs[i := ?u] ! j"
      by (auto simp add: r set_sort_by in_set_conv_nth)
    with ne have "j \<noteq> i" using i by auto
    with j later show "lastUsed y < lastUsed ?u" by (simp add: u)
  qed
  show ?thesis
    by (rule sorted_hd_latest[OF _ mem rest]) (simp add: r sorted_fastAccess)
qed

lemma loaded_capacity: "withinCapacity s \<Longrightarrow> length (loadedItems e s) \<le> maxItems"
  by (cases "map_of (storage s) FastAccessItems")
     (auto simp add: withinCapacity_def loadedItems_def loadFastAccessItems_def
        AsyncStorage_getItem_def length_sort_by maxItems_def
        split: stored.splits option.splits)


lemma capacity_add: "withinCapacity s \<Longrightarrow> withinCapacity (snd (addOrUpdateFastAccessItem e it s))"
  by (cases "map_of (storage s) FastAccessItems")
     (auto simp add: withinCapacity_def addOrUpdateFastAccessItem_def Let_def
        AsyncStorage_setItem_def loadFastAccessItems_def AsyncStorage_getItem_def
        length_recordUse update_conv' split: stored.splits option.splits)

lemma capacity_remove: "withinCapacity s \<Longrightarrow> withinCapacity (snd (removeFastAccessItem e i s))"
  using le_trans[OF length_filter_le[of "\<lambda>item. item_id item \<noteq> i" "fastAccessItems s"]]
  by (cases "map_of (storage s) FastAccessItems")
     (auto simp add: withinCapacity_def removeFastAccessItem_def Let_def
        AsyncStorage_setItem_def update_conv' split: stored.splits option.splits)

lemma capacity_load: "withinCapacity s \<Longrightarrow> withinCapacity (snd (loadFastAccessItems e s))"
  by (cases "map_of (storage s) FastAccessItems")
     (auto simp add: withinCapacity_def loadFastAccessItems_def AsyncStorage_getItem_def
        length_sort_by split: stored.splits option.splits)

lemma capacity_new: "withinCapacity (demoApp d)"
  by (simp add: withinCapacity_def demoApp_def)

text \<open>
  C6, as amended. Recording a use of an item whose name and restaurant are those of the
  entry at index \<open>i\<close> of a list of at most ten entries changes that entry and no other:
  the list afterwards holds the same entries, except that the one at \<open>i\<close> has \<open>useCount\<close>
  one more, \<open>lastUsed\<close> the time of the call and the amounts and serving size of the new
  item; it has the same length and the same pairs of name and restaurant, so no entry is
  added; and it is in the order of the list: \<open>lastUsed\<close> descending, ties by \<open>useCount\<close>.
  When the time of the call is later than the \<open>lastUsed\<close> of every other entry, the
  re-used entry is first, and on a sorted list the other entries follow unchanged and in
  their order. After eleven recorded uses of items with eleven different pairs of name
  and restaurant, from any state, the list has exactly ten entries, in descending order
  of \<open>lastUsed\<close>.
\<close>

theorem quick_access_dedup:
  "(findIndex (\<lambda>item. name item = name it \<and> restaurant item = restaurant it) (loadedItems e s) = Some i
      \<and> length (loadedItems e s) \<le> maxItems
    \<longrightarrow> mset (fastAccessItems (snd (addOrUpdateFastAccessItem e it s)))
          = mset ((loadedItems e s)[i := refreshed (now_lastUsed e) it (loadedItems e s ! i)])
        \<and> mset (map entryKey (fastAccessItems (snd (addOrUpdateFastAccessItem e it s))))
          = mset (map entryKey (loadedItems e s))
        \<and> length (fastAccessItems (snd (addOrUpdateFastAccessItem e it s))) = length (loadedItems e s)
        \<and> sorted_wrt fastAccessOrder (fastAccessItems (snd (addOrUpdateFastAccessItem e it s)))
        \<and> ((\<forall>j < length (loadedItems e s). j \<noteq> i \<longrightarrow> lastUsed (loadedItems e s ! j) < now_lastUsed e)
            \<longrightarrow> hd (fastAccessItems (snd (addOrUpdateFastAccessItem e it s)))
                  = refreshed (now_lastUsed e) it (loadedItems e s ! i)
                \<and> (sorted_wrt fastAccessOrder (loadedItems e s)
                    \<longrightarrow> fastAccessItems (snd (addOrUpdateFastAccessItem e it s))
                          = refreshed (now_lastUsed e) it (loadedItems e s ! i)
                              # take i (loadedItems e s) @ drop (Suc i) (loadedItems e s))))
   \<and> (distinct (map (\<lambda>u. entryKey (snd u)) us) \<and> length us = 11
    \<longrightarrow> length (fastAccessItems (recordUses us s)) = 10
        \<and> sorted_wrt (\<lambda>a b. lastUsed b \<le> lastUsed a) (fastAccessItems (recordUses us s)))"
proof -
  let ?xs = "loadedItems e s" and ?t = "now_lastUsed e"
  let ?ys = "fastAccessItems (snd (addOrUpdateFastAccessItem e it s))"
  have ys: "?ys = recordUse ?t it ?xs" by (simp add: addOrUpdate_list)
  have a: "findIndex (\<lambda>item. name item = name it \<and> restaurant item = restaurant it) ?xs = Some i
      \<and> length ?xs \<le> maxItems
    \<longrightarrow> mset ?ys = mset (?xs[i := refreshed ?t it (?xs ! i)])
        \<and> mset (map entryKey ?ys) = mset (map entryKey ?xs)
        \<and> length ?ys = length ?xs
        \<and> sorted_wrt fastAccessOrder ?ys
        \<and> ((\<forall>j < length ?xs. j \<noteq> i \<longrightarrow> lastUsed (?xs ! j) < ?t)
            \<longrightarrow> hd ?ys = refreshed ?t it (?xs ! i)
                \<and> (sorted_wrt fastAccessOrder ?xs
                    \<longrightarrow> ?ys = refreshed ?t it (?xs ! i) # take i ?xs @ drop (Suc i) ?xs))"
  proof
    assume h: "findIndex (\<lambda>item. name item = name it \<and> restaurant item = restaurant it) ?xs = Some i
      \<and> length ?xs \<le> maxItems"
    then have idx: "findIndex (\<lambda>item. name item = name it \<and> restaurant item = restaurant it) ?xs = Some i"
      and len: "length ?xs \<le> maxItems" by simp_all
    have r: "?ys = sort_by fastAccessOrder (?xs[i := refreshed ?t it (?xs ! i)])"
      unfolding ys by (rule recordUse_match[OF idx len])
    have m: "mset ?ys = mset (?xs[i := refreshed ?t it (?xs ! i)])"
      unfolding r by (rule mset_sort_by)
    have "mset (map entryKey ?ys) = mset (map entryKey (?xs[i := refreshed ?t it (?xs ! i)]))"
      using m by (simp only: mset_map)
    then have k: "mset (map entryKey ?ys) = mset (map entryKey ?xs)"
      by (simp only: keys_update[OF idx])
    have l: "length ?ys = length ?xs"
      by (simp add: r length_sort_by)
    have o: "sorted_wrt fastAccessOrder ?ys"
      by (simp add: r sorted_fastAccess)
    have f: "(\<forall>j < length ?xs. j \<noteq> i \<longrightarrow> lastUsed (?xs ! j) < ?t)
            \<longrightarrow> hd ?ys = refreshed ?t it (?xs ! i)
                \<and> (sorted_wrt fastAccessOrder ?xs
                    \<longrightarrow> ?ys = refreshed ?t it (?xs ! i) # take i ?xs @ drop (Suc i) ?xs)"
    proof
      assume later: "\<forall>j < length ?xs. j \<noteq> i \<longrightarrow> lastUsed (?xs ! j) < ?t"
      have f1: "hd ?ys = refreshed ?t it (?xs ! i)"
        unfolding ys by (rule recordUse_hd[OF idx len later])
      have f2: "sorted_wrt fastAccessOrder ?xs
                    \<longrightarrow> ?ys = refreshed ?t it (?xs ! i) # take i ?xs @ drop (Suc i) ?xs"
      proof
        assume srt: "sorted_wrt fastAccessOrder ?xs"
        show "?ys = refreshed ?t it (?xs ! i) # take i ?xs @ drop (Suc i) ?xs"
          unfolding ys by (rule readd_front[OF idx srt len later])
      qed
      from f1 f2 show "hd ?ys = refreshed ?t it (?xs ! i)
                \<and> (sorted_wrt fastAccessOrder ?xs
                    \<longrightarrow> ?ys = refreshed ?t it (?xs ! i) # take i ?xs @ drop (Suc i) ?xs)" ..
    qed
    from m k l o f show "mset ?ys = mset (?xs[i := refreshed ?t it (?xs ! i)])
        \<and> mset (map entryKey ?ys) = mset (map entryKey ?xs)
        \<and> length ?ys = length ?xs
        \<and> sorted_wrt fastAccessOrder ?ys
        \<and> ((\<forall>j < length ?xs. j \<noteq> i \<longrightarrow> lastUsed (?xs ! j) < ?t)
            \<longrightarrow> hd ?ys = refreshed ?t it (?xs ! i)
                \<and> (sorted_wrt fastAccessOrder ?xs
                    \<longrightarrow> ?ys = refreshed ?t it (?xs ! i) # take i ?xs @ drop (Suc i) ?xs))"
      by (intro conjI)
  qed
  have b: "distinct (map (\<lambda>u. entryKey (snd u)) us) \<and> length us = 11
    \<longrightarrow> length (fastAccessItems (recordUses us s)) = 10
        \<and> sorted_wrt (\<lambda>a b. lastUsed b \<le> lastUsed a) (fastAccessItems (recordUses us s))"
  proof
    assume h: "distinct (map (\<lambda>u. entryKey (snd u)) us) \<and> length us = 11"
    then have ne: "us \<noteq> []" by auto
    from h eleven_distinct[of us s] have "length (fastAccessItems (recordUses us s)) = 10"
      by (simp add: maxItems_def)
    moreover have "sorted_wrt (\<lambda>a b. lastUsed b \<le> lastUsed a) (fastAccessItems (recordUses us s))"
      using uses_sorted[OF ne, of s] by (rule sorted_by_lastUsed)
    ultimately show "length (fastAccessItems (recordUses us s)) = 10
        \<and> sorted_wrt (\<lambda>a b. lastUsed b \<le> lastUsed a) (fastAccessItems (recordUses us s))"
      by simp
  qed
  from a b show ?thesis ..
qed


text \<open>
  The eleven uses of \<open>elevenUses\<close> on a new service: the entry of the first use is
  evicted, and the ten others are held most recent first.
\<close>

lemma recordUses_Cons:
  "recordUses (u # us) s = recordUses us (snd (addOrUpdateFastAccessItem (fst u) (snd u) s))"
  by (simp add: recordUses_def)

lemma recordUses_Nil: "recordUses [] s = s"
  by (simp add: recordUses_def)

lemma upsert_nonempty: "upsertFastAccessItem t it xs \<noteq> []"
  using length_upsert_match[of "\<lambda>item. name item = name it \<and> restaurant item = restaurant it" xs]
  by (auto simp add: upsertFastAccessItem_def split: option.splits)

lemma step_nonempty: "fastAccessItems (snd (addOrUpdateFastAccessItem e it s)) \<noteq> []"
proof -
  let ?ys = "upsertFastAccessItem (now_lastUsed e) it (loadedItems e s)"
  have "0 < length ?ys" using upsert_nonempty[of "now_lastUsed e" it "loadedItems e s"] by simp
  then have "0 < length (recordUse (now_lastUsed e) it (loadedItems e s))"
    by (simp add: length_recordUse maxItems_def)
  then show ?thesis by (simp add: addOrUpdate_list)
qed

lemma recordUses_list:
  "fastAccessItems s \<noteq> [] \<Longrightarrow>
   fastAccessItems (recordUses us s)
     = foldl (\<lambda>xs u. recordUse (now_lastUsed (fst u)) (snd u) xs) (fastAccessItems s) us"
proof (induction us arbitrary: s)
  case Nil
  then show ?case by (simp add: recordUses_Nil)
next
  case (Cons u us)
  let ?s1 = "snd (addOrUpdateFastAccessItem (fst u) (snd u) s)"
  have l: "fastAccessItems ?s1 = recordUse (now_lastUsed (fst u)) (snd u) (fastAccessItems s)"
    using Cons.prems by (simp add: addOrUpdate_list loadedItems_def)
  have "fastAccessItems ?s1 \<noteq> []"
    by (simp add: step_nonempty)
  from Cons.IH[OF this] l show ?case by (simp add: recordUses_Cons)
qed

lemma recordUses_fresh:
  "loadedItems (fst u) s = [] \<Longrightarrow>
   fastAccessItems (recordUses (u # us) s)
     = foldl (\<lambda>xs u. recordUse (now_lastUsed (fst u)) (snd u) xs) [] (u # us)"
proof -
  assume l: "loadedItems (fst u) s = []"
  let ?s1 = "snd (addOrUpdateFastAccessItem (fst u) (snd u) s)"
  have "fastAccessItems ?s1 = recordUse (now_lastUsed (fst u)) (snd u) []"
    by (simp add: addOrUpdate_list l)
  with recordUses_list[OF step_nonempty, of us "fst u" "snd u" s] show ?thesis
    by (simp add: recordUses_Cons)
qed

lemma eleven_example:
  "map item_id (foldl (\<lambda>xs u. recordUse (now_lastUsed (fst u)) (snd u) xs) [] elevenUses)
     = [''eA'', ''e9'', ''e8'', ''e7'', ''e6'', ''e5'', ''e4'', ''e3'', ''e2'', ''e1'']"
  by (simp add: elevenUses_def demoUse_def demoEnv_def recordUse_def upsertFastAccessItem_def
      Let_def demoItem_def sort_by_def fastAccessOrder_iff maxItems_def)

lemma demoApp_loaded: "loadedItems (demoEnv d i t) (demoApp d') = []"
  by (simp add: loadedItems_def loadFastAccessItems_def AsyncStorage_getItem_def demoApp_def
      demoEnv_def)

lemma eleven_on_new_service:
  "map item_id (fastAccessItems (recordUses elevenUses (demoApp (2024, 3, 10))))
     = [''eA'', ''e9'', ''e8'', ''e7'', ''e6'', ''e5'', ''e4'', ''e3'', ''e2'', ''e1'']"
proof -
  obtain u us where us: "elevenUses = u # us" and u: "fst u = demoEnv (2024, 3, 10) ''e0'' 100"
    by (simp add: elevenUses_def demoUse_def)
  have "loadedItems (fst u) (demoApp (2024, 3, 10)) = []"
    by (simp add: u demoApp_loaded)
  from recordUses_fresh[OF this, of us] show ?thesis
    using eleven_example by (simp add: us)
qed

text \<open>
  C6 as stated fails on \<open>returnDemo\<close> when the clock has been set back: the entry of
  \<open>Rice\<close> is re-used at time 200, its \<open>useCount\<close> becomes 2, and it stays second, behind
  the entry last used at time 300.
\<close>

theorem quick_access_dedup_counterexample:
  "map entryKey (fastAccessItems returnDemo)
       = [(''Soup'', ''Custom Meal''), (''Rice'', ''Custom Meal'')]
   \<and> entryKey (demoItem ''y'' ''Rice'' ''Custom Meal'' 300 200) = (''Rice'', ''Custom Meal'')
   \<and> map item_id (fastAccessItems (snd (addOrUpdateFastAccessItem (demoEnv (2024, 3, 10) ''y'' 200)
        (demoItem ''y'' ''Rice'' ''Custom Meal'' 300 200) returnDemo))) = [''a'', ''x'']
   \<and> map useCount (fastAccessItems (snd (addOrUpdateFastAccessItem (demoEnv (2024, 3, 10) ''y'' 200)
        (demoItem ''y'' ''Rice'' ''Custom Meal'' 300 200) returnDemo))) = [1, 2]
   \<and> map lastUsed (fastAccessItems (snd (addOrUpdateFastAccessItem (demoEnv (2024, 3, 10) ''y'' 200)
        (demoItem ''y'' ''Rice'' ''Custom Meal'' 300 200) returnDemo))) = [300, 200]"
proof -
  have l: "loadedItems (demoEnv (2024, 3, 10) ''y'' 200) returnDemo
      = [demoEntry ''a'' ''Soup'' ''Custom Meal'' 200 300 1,
         demoEntry ''x'' ''Rice'' ''Custom Meal'' 300 100 1]"
    "fastAccessItems returnDemo
      = [demoEntry ''a'' ''Soup'' ''Custom Meal'' 200 300 1,
         demoEntry ''x'' ''Rice'' ''Custom Meal'' 300 100 1]"
    by (simp_all add: loadedItems_def returnDemo_def)
  have t: "now_lastUsed (demoEnv (2024, 3, 10) ''y'' 200) = 200" by (simp add: demoEnv_def)
  show ?thesis
    by (simp add: addOrUpdate_list l t recordUse_def upsertFastAccessItem_def Let_def
        demoEntry_fields demoItem_fields sort_eval entryKey_def)
qed

theorem quick_access_dedup_witness:
  "findIndex (\<lambda>item. name item = name (demoItem ''y'' ''Rice'' ''Custom Meal'' 300 200)
                  \<and> restaurant item = restaurant (demoItem ''y'' ''Rice'' ''Custom Meal'' 300 200))
       (loadedItems (demoEnv (2024, 3, 10) ''y'' 200) returnDemo) = Some 1
   \<and> length (loadedItems (demoEnv (2024, 3, 10) ''y'' 200) returnDemo) \<le> maxItems
   \<and> now_lastUsed (demoEnv (2024, 3, 10) ''y'' 200)
       < lastUsed (loadedItems (demoEnv (2024, 3, 10) ''y'' 200) returnDemo ! 0)
   \<and> mset (fastAccessItems (snd (addOrUpdateFastAccessItem (demoEnv (2024, 3, 10) ''y'' 200)
        (demoItem ''y'' ''Rice'' ''Custom Meal'' 300 200) returnDemo)))
       = mset [demoEntry ''a'' ''Soup'' ''Custom Meal'' 200 300 1,
               refreshed 200 (demoItem ''y'' ''Rice'' ''Custom Meal'' 300 200)
                 (demoEntry ''x'' ''Rice'' ''Custom Meal'' 300 100 1)]
   \<and> mset (map entryKey (fastAccessItems (snd (addOrUpdateFastAccessItem (demoEnv (2024, 3, 10) ''y'' 200)
        (demoItem ''y'' ''Rice'' ''Custom Meal'' 300 200) returnDemo))))
       = mset [(''Soup'', ''Custom Meal''), (''Rice'', ''Custom Meal'')]
   \<and> length (fastAccessItems (snd (addOrUpdateFastAccessItem (demoEnv (2024, 3, 10) ''y'' 200)
        (demoItem ''y'' ''Rice'' ''Custom Meal'' 300 200) returnDemo))) = 2
   \<and> sorted_wrt fastAccessOrder (fastAccessItems (snd (addOrUpdateFastAccessItem
        (demoEnv (2024, 3, 10) ''y'' 200) (demoItem ''y'' ''Rice'' ''Custom Meal'' 300 200) returnDemo)))
   \<and> useCount (refreshed 200 (demoItem ''y'' ''Rice'' ''Custom Meal'' 300 200)
        (demoEntry ''x'' ''Rice'' ''Custom Meal'' 300 100 1)) = 2
   \<and> lastUsed (refreshed 200 (demoItem ''y'' ''Rice'' ''Custom Meal'' 300 200)
        (demoEntry ''x'' ''Rice'' ''Custom Meal'' 300 100 1)) = 200
   \<and> findIndex (\<lambda>item. name item = name (demoItem ''y'' ''Rice'' ''Custom Meal'' 300 400)
                  \<and> restaurant item = restaurant (demoItem ''y'' ''Rice'' ''Custom Meal'' 300 400))
       (loadedItems (demoEnv (2024, 3, 10) ''y'' 400) returnDemo) = Some 1
   \<and> sorted_wrt fastAccessOrder (loadedItems (demoEnv (2024, 3, 10) ''y'' 400) returnDemo)
   \<and> length (loadedItems (demoEnv (2024, 3, 10) ''y'' 400) returnDemo) \<le> maxItems
   \<and> lastUsed (loadedItems (demoEnv (2024, 3, 10) ''y'' 400) returnDemo ! 0)
       < now_lastUsed (demoEnv (2024, 3, 10) ''y'' 400)
   \<and> hd (fastAccessItems (snd (addOrUpdateFastAccessItem (demoEnv (2024, 3, 10) ''y'' 400)
        (demoItem ''y'' ''Rice'' ''Custom Meal'' 300 400) returnDemo)))
       = refreshed 400 (demoItem ''y'' ''Rice'' ''Custom Meal'' 300 400)
            (demoEntry ''x'' ''Rice'' ''Custom Meal'' 300 100 1)
   \<and> fastAccessItems (snd (addOrUpdateFastAccessItem (demoEnv (2024, 3, 10) ''y'' 400)
        (demoItem ''y'' ''Rice'' ''Custom Meal'' 300 400) returnDemo))
       = [refreshed 400 (demoItem ''y'' ''Rice'' ''Custom Meal'' 300 400)
            (demoEntry ''x'' ''Rice'' ''Custom Meal'' 300 100 1),
          demoEntry ''a'' ''Soup'' ''Custom Meal'' 200 300 1]
   \<and> distinct (map (\<lambda>u. entryKey (snd u)) elevenUses)
   \<and> length elevenUses = 11
   \<and> length (fastAccessItems (recordUses elevenUses (demoApp (2024, 3, 10)))) = 10
   \<and> sorted_wrt (\<lambda>a b. lastUsed b \<le> lastUsed a)
        (fastAccessItems (recordUses elevenUses (demoApp (2024, 3, 10))))
   \<and> map item_id (fastAccessItems (recordUses elevenUses (demoApp (2024, 3, 10))))
       = [''eA'', ''e9'', ''e8'', ''e7'', ''e6'', ''e5'', ''e4'', ''e3'', ''e2'', ''e1'']"
proof -
  let ?e2 = "demoEnv (2024, 3, 10) ''y'' 200" and ?e4 = "demoEnv (2024, 3, 10) ''y'' 400"
  let ?i2 = "demoItem ''y'' ''Rice'' ''Custom Meal'' 300 200"
  let ?i4 = "demoItem ''y'' ''Rice'' ''Custom Meal'' 300 400"
  let ?soup = "demoEntry ''a'' ''Soup'' ''Custom Meal'' 200 300 1"
  let ?rice = "demoEntry ''x'' ''Rice'' ''Custom Meal'' 300 100 1"
  let ?r2 = "fastAccessItems (snd (addOrUpdateFastAccessItem ?e2 ?i2 returnDemo))"
  let ?r4 = "fastAccessItems (snd (addOrUpdateFastAccessItem ?e4 ?i4 returnDemo))"
  have l: "\<And>e. loadedItems e returnDemo = [?soup, ?rice]"
    by (simp add: loadedItems_def returnDemo_def)
  have t: "now_lastUsed ?e2 = 200" "now_lastUsed ?e4 = 400" by (simp_all add: demoEnv_def)
  have g2: "findIndex (\<lambda>item. name item = name ?i2 \<and> restaurant item = restaurant ?i2)
       (loadedItems ?e2 returnDemo) = Some 1"
    "length (loadedItems ?e2 returnDemo) \<le> maxItems"
    "now_lastUsed ?e2 < lastUsed (loadedItems ?e2 returnDemo ! 0)"
    by (simp_all add: l t demoEntry_fields demoItem_fields maxItems_def)
  have g4: "findIndex (\<lambda>item. name item = name ?i4 \<and> restaurant item = restaurant ?i4)
       (loadedItems ?e4 returnDemo) = Some 1"
    "sorted_wrt fastAccessOrder (loadedItems ?e4 returnDemo)"
    "length (loadedItems ?e4 returnDemo) \<le> maxItems"
    "lastUsed (loadedItems ?e4 returnDemo ! 0) < now_lastUsed ?e4"
    by (simp_all add: l t fastAccessOrder_iff demoEntry_fields demoItem_fields maxItems_def)
  have later: "\<forall>j < length (loadedItems ?e4 returnDemo). j \<noteq> 1 \<longrightarrow>
              lastUsed (loadedItems ?e4 returnDemo ! j) < now_lastUsed ?e4"
    by (auto simp add: l t demoEntry_fields less_Suc_eq)
  have g11: "distinct (map (\<lambda>u. entryKey (snd u)) elevenUses)" "length elevenUses = 11"
    by (simp_all add: elevenUses_def demoUse_def entryKey_def demoItem_fields)
  note a = quick_access_dedup[of ?i2 ?e2 returnDemo 1 elevenUses]
  note b = quick_access_dedup[of ?i4 ?e4 returnDemo 1 elevenUses]
  note c = quick_access_dedup[of ?i4 ?e4 "demoApp (2024, 3, 10)" 1 elevenUses]
  from a g2(1,2)
  have a0: "mset ?r2 = mset ((loadedItems ?e2 returnDemo)
              [1 := refreshed (now_lastUsed ?e2) ?i2 (loadedItems ?e2 returnDemo ! 1)])"
    "mset (map entryKey ?r2) = mset (map entryKey (loadedItems ?e2 returnDemo))"
    "length ?r2 = length (loadedItems ?e2 returnDemo)"
    "sorted_wrt fastAccessOrder ?r2"
    by blast+
  have a1: "mset ?r2 = mset [?soup, refreshed 200 ?i2 ?rice]"
    using a0(1) by (simp add: l t)
  have a2: "mset (map entryKey ?r2) = mset [(''Soup'', ''Custom Meal''), (''Rice'', ''Custom Meal'')]"
    unfolding a0(2) by (simp add: l entryKey_def demoEntry_fields)
  have a3: "length ?r2 = 2" "sorted_wrt fastAccessOrder ?r2"
    using a0(3,4) by (simp_all add: l)
  have a4: "useCount (refreshed 200 ?i2 ?rice) = 2" "lastUsed (refreshed 200 ?i2 ?rice) = 200"
    by (simp_all add: refreshed_def demoEntry_fields)
  from b g4(1,2,3) later
  have b0: "hd ?r4 = refreshed (now_lastUsed ?e4) ?i4 (loadedItems ?e4 returnDemo ! 1)"
    "?r4 = refreshed (now_lastUsed ?e4) ?i4 (loadedItems ?e4 returnDemo ! 1)
             # take 1 (loadedItems ?e4 returnDemo) @ drop (Suc 1) (loadedItems ?e4 returnDemo)"
    by blast+
  have b1: "hd ?r4 = refreshed 400 ?i4 ?rice"
    using b0(1) by (simp add: l t)
  have b2: "?r4 = [refreshed 400 ?i4 ?rice, ?soup]"
    using b0(2) by (simp add: l t)
  from c g11
  have c1: "length (fastAccessItems (recordUses elevenUses (demoApp (2024, 3, 10)))) = 10"
    "sorted_wrt (\<lambda>a b. lastUsed b \<le> lastUsed a)
        (fastAccessItems (recordUses elevenUses (demoApp (2024, 3, 10))))"
    by blast+
  show ?thesis
    using g2 a1 a2 a3 a4 g4 b1 b2 g11 c1 eleven_on_new_service by blast
qed

end
